theory Spec2Isabelle
  imports Main "HOL-Library.AList"
begin

section \<open>The dynamic cache of internal/objectstore/dynamic\_cache.go\<close>

text \<open>
  The model follows dynamic\_cache.go function by function. Go's \<open>(value, error)\<close>
  returns are sums (\<open>Inl\<close> carries the failure), a nil-able pointer or interface is an
  \<open>option\<close>, the calls made on collaborators (permission reviews, informer creation,
  cache reads, sleeps, span annotations, handler registrations) are recorded in an
  explicit \<open>World\<close> that every function takes and returns, and a call that never
  returns is the value \<open>None\<close>. The mutex of \<open>DynamicCache\<close> is not modelled: the
  functions below describe one caller at a time.
\<close>

subsection \<open>Keys, type descriptors and errors\<close>

type_synonym label_set = "(string \<times> string) list"

text \<open>
  Modelled from the spec: \<open>objectstoreutil.Key\<close> (package pkg/objectstoreutil is not among
  the sources). The fields are the ones dynamic\_cache.go reads: \<open>key.Namespace\<close>,
  \<open>key.APIVersion\<close>, \<open>key.Kind\<close>, \<open>key.Name\<close> and the nil-able \<open>key.Selector\<close>.
\<close>

record Key =
  Namespace :: string
  APIVersion :: string
  Kind :: string
  Name :: string
  Selector :: "label_set option"

datatype GroupKind = GroupKind (gk_Group: string) (gk_Kind: string)

datatype GroupVersionKind =
  GroupVersionKind (gvk_Group: string) (gvk_Version: string) (gvk_Kind: string)

datatype GroupVersionResource =
  GroupVersionResource (gvr_Group: string) (gvr_Version: string) (gvr_Resource: string)

datatype status_reason =
  StatusReasonNotFound | StatusReasonForbidden | StatusReasonTimeout | StatusReasonInternalError

text \<open>The argument of a \<open>%v\<close> or \<open>%T\<close> verb of \<open>errors.Wrapf\<close>, kept unformatted.\<close>

datatype fmt_arg = ArgKey Key | ArgTypeOfObject

text \<open>
  Go error values: \<open>errors.New\<close>, \<open>errors.Wrap\<close>, \<open>errors.Wrapf\<close>, an API status error of
  the client library with its reason, and the marker \<open>retry.Stop\<close> puts around an error.
\<close>

datatype error =
    ErrorsNew string
  | ErrorsWrap error string
  | ErrorsWrapf error string fmt_arg
  | StatusError status_reason string
  | RetryStop error

text \<open>A call either returns an error to its caller or panics (a nil dereference).\<close>

datatype failure = Failed error | Panicked string

text \<open>\<open>kerrors.IsNotFound\<close>: the error is an API status whose reason is not-found.\<close>

fun IsNotFound :: "error \<Rightarrow> bool" where
  "IsNotFound (StatusError r m) = (r = StatusReasonNotFound)"
| "IsNotFound (ErrorsNew m) = False"
| "IsNotFound (ErrorsWrap e m) = False"
| "IsNotFound (ErrorsWrapf e m a) = False"
| "IsNotFound (RetryStop e) = False"

text \<open>
  Modelled from the spec: \<open>Key.GroupVersionKind\<close> (pkg/objectstoreutil is not among the
  sources): the descriptor's group and version are the two halves of \<open>APIVersion\<close>
  (\<open>group/version\<close>, or a bare version for the core group), its kind is \<open>Kind\<close>.
  Namespace, name and selector play no part.
\<close>

definition ParseGroupVersion :: "string \<Rightarrow> (string \<times> string) option" where
  "ParseGroupVersion gv =
     (if gv = [] \<or> gv = ''/'' then Some ([], [])
      else if count_list gv (CHR ''/'') = 0 then Some ([], gv)
      else if count_list gv (CHR ''/'') = 1
        then Some (takeWhile (\<lambda>c. c \<noteq> CHR ''/'') gv, tl (dropWhile (\<lambda>c. c \<noteq> CHR ''/'') gv))
      else None)"

definition Key_GroupVersionKind :: "Key \<Rightarrow> GroupVersionKind" where
  "Key_GroupVersionKind k =
     (case ParseGroupVersion (APIVersion k) of
        Some (g, v) \<Rightarrow> GroupVersionKind g v (Kind k)
      | None \<Rightarrow> GroupVersionKind [] [] (Kind k))"

definition GVK_GroupKind :: "GroupVersionKind \<Rightarrow> GroupKind" where
  "GVK_GroupKind gvk = GroupKind (gvk_Group gvk) (gvk_Kind gvk)"

subsection \<open>Collaborators\<close>

text \<open>
  \<open>authorizationv1.ResourceAttributes\<close> as \<open>checkVerb\<close> fills it: verb, group, version,
  resource, namespace.
\<close>

datatype ResourceAttributes =
  ResourceAttributes (ra_Verb: string) (ra_Group: string) (ra_Version: string)
    (ra_Resource: string) (ra_Namespace: string)

text \<open>\<open>metav1.NamespaceAll\<close> is the empty string.\<close>

definition NamespaceAll :: string where
  "NamespaceAll = []"

text \<open>
  \<open>SelfSubjectAccessReviews().Create\<close>: the answer to a review, given how many reviews
  were created before it (the server may change its mind): an error, or whether
  \<open>response.Status.Allowed\<close>.
\<close>

type_synonym AuthClient = "nat \<Rightarrow> ResourceAttributes \<Rightarrow> error + bool"

text \<open>
  \<open>cluster.ClientInterface\<close>, the two methods used here. \<open>KubernetesClient\<close> returns a Go
  pair: a client that may be nil and an error that may be nil.
\<close>

record ClientInterface =
  Resource :: "GroupKind \<Rightarrow> error + GroupVersionResource"
  KubernetesClient :: "AuthClient option \<times> error option"

text \<open>\<open>labels.Selector\<close> values built in this file: \<open>Everything()\<close> and \<open>Set.AsSelector()\<close>.\<close>

datatype Selector = Everything | AsSelector label_set

text \<open>
  \<open>informers.GenericInformer\<close>: the resource it watches, \<open>Informer().HasSynced\<close> as a
  function of the poll that asks, and the lister. The lister's first argument is the
  namespace of \<open>ByNamespace\<close> (\<open>None\<close> for the unscoped lister), the second the number of
  cache reads made before this one (the cache changes under the watch).
\<close>

record 'o GenericInformer =
  resource :: GroupVersionResource
  HasSynced :: "nat \<Rightarrow> bool"
  lister_List :: "string option \<Rightarrow> nat \<Rightarrow> Selector \<Rightarrow> error + 'o list"
  lister_Get :: "string option \<Rightarrow> nat \<Rightarrow> string \<Rightarrow> error + 'o"

datatype Attribute = StringAttribute string string | Int64Attribute string int

type_synonym Duration = int

definition Second :: Duration where
  "Second = 1000000000"

text \<open>
  What the collaborators have been asked so far: the permission reviews created, the
  informers the shared factory holds and has started, the cache-sync waits entered, the
  number of lister reads, the sleeps of the retry helper, the span annotations and the
  event handlers registered.
\<close>

record 'h World =
  probes :: "ResourceAttributes list"
  informers :: "GroupVersionResource list"
  started :: "GroupVersionResource list"
  waits :: "GroupVersionResource list"
  reads :: nat
  sleeps :: "Duration list"
  annotations :: "(Attribute list \<times> string) list"
  handlers :: "(GroupVersionResource \<times> 'h) list"

subsection \<open>checkAccess\<close>

text \<open>Lines 82 to 93: the attributes of the review for one verb.\<close>

definition resourceAttributes :: "Key \<Rightarrow> GroupVersionResource \<Rightarrow> string \<Rightarrow> ResourceAttributes" where
  "resourceAttributes key gvr verb =
     (let ra = ResourceAttributes verb (gvr_Group gvr) (gvr_Version gvr) (gvr_Resource gvr) []
      in if Namespace key \<noteq> []
         then ResourceAttributes (ra_Verb ra) (ra_Group ra) (ra_Version ra) (ra_Resource ra) NamespaceAll
         else ra)"

text \<open>The closure \<open>checkVerb\<close>: one review; an error of \<open>Create\<close> answers false.\<close>

definition checkVerb ::
  "AuthClient \<Rightarrow> Key \<Rightarrow> GroupVersionResource \<Rightarrow> string \<Rightarrow> 'h World \<Rightarrow> bool \<times> 'h World" where
  "checkVerb authClient key gvr verb w =
     (let sar = resourceAttributes key gvr verb;
          w' = w\<lparr>probes := probes w @ [sar]\<rparr>
      in case authClient (length (probes w)) sar of
           Inl err \<Rightarrow> (False, w')
         | Inr allowed \<Rightarrow> if allowed then (True, w') else (False, w'))"

text \<open>The loop \<open>for _, v := range verbs { mustHaveVerbs[v] = checkVerb(v) }\<close>.\<close>

fun checkVerbs ::
  "AuthClient \<Rightarrow> Key \<Rightarrow> GroupVersionResource \<Rightarrow> string list \<Rightarrow> (string \<times> bool) list \<Rightarrow> 'h World
     \<Rightarrow> (string \<times> bool) list \<times> 'h World" where
  "checkVerbs authClient key gvr [] mustHaveVerbs w = (mustHaveVerbs, w)"
| "checkVerbs authClient key gvr (v # vs) mustHaveVerbs w =
     (case checkVerb authClient key gvr v w of
        (b, w') \<Rightarrow> checkVerbs authClient key gvr vs (AList.update v b mustHaveVerbs) w')"

text \<open>Reading a \<open>map[string]bool\<close>: a missing key reads false.\<close>

definition lookup_verb :: "(string \<times> bool) list \<Rightarrow> string \<Rightarrow> bool" where
  "lookup_verb m k = (case map_of m k of Some b \<Rightarrow> b | None \<Rightarrow> False)"

text \<open>The verb \<open>%t\<close> of \<open>fmt.Sprintf\<close>.\<close>

definition fmt_bool :: "bool \<Rightarrow> string" where
  "fmt_bool b = (if b then ''true'' else ''false'')"

definition currentAccess :: "(string \<times> bool) list \<Rightarrow> string" where
  "currentAccess mustHaveVerbs =
     ''get: '' @ fmt_bool (lookup_verb mustHaveVerbs ''get'') @
     '', list: '' @ fmt_bool (lookup_verb mustHaveVerbs ''list'') @
     '', watch: '' @ fmt_bool (lookup_verb mustHaveVerbs ''watch'')"

text \<open>
  \<open>checkAccess\<close>. The error of \<open>client.KubernetesClient()\<close> is wrapped and the wrapped
  value thrown away (line 77 has no \<open>return\<close>), so the function goes on to call
  \<open>AuthorizationV1\<close> on the client it was given, which panics when that client is nil.
\<close>

definition checkAccess ::
  "ClientInterface \<Rightarrow> Key \<Rightarrow> GroupVersionResource \<Rightarrow> 'h World \<Rightarrow> failure option \<times> 'h World" where
  "checkAccess client key gvr w =
     (case KubernetesClient client of
        (k8sClient, err) \<Rightarrow>
          (let discarded = (case err of Some e \<Rightarrow> Some (ErrorsWrap e ''client kubernetes'') | None \<Rightarrow> None)
           in case k8sClient of
                None \<Rightarrow> (Some (Panicked ''invalid memory address or nil pointer dereference''), w)
              | Some authClient \<Rightarrow>
                 (case checkVerbs authClient key gvr [''get'', ''list'', ''watch'']
                         [(''get'', False), (''list'', False), (''watch'', False)] w of
                    (mustHaveVerbs, w') \<Rightarrow>
                      if list_ex (\<lambda>(k, v). v = False) mustHaveVerbs
                      then (Some (Failed (ErrorsNew
                              (''requires cluster scoped get/list/watch access, have '' @
                               currentAccess mustHaveVerbs))), w')
                      else (None, w'))))"

subsection \<open>The package-level currentInformer\<close>

text \<open>
  \<open>dynamicinformer.DynamicSharedInformerFactory\<close>: the informer it hands out for a
  resource. \<open>ForResource\<close> keeps one informer per resource: asking again for a resource it
  already holds opens no second one. \<open>Start\<close> starts the informers not yet started.
\<close>

type_synonym 'o Factory = "GroupVersionResource \<Rightarrow> 'o GenericInformer"

definition ForResource ::
  "'o Factory \<Rightarrow> GroupVersionResource \<Rightarrow> 'h World \<Rightarrow> 'o GenericInformer \<times> 'h World" where
  "ForResource factory gvr w =
     (factory gvr, if gvr \<in> set (informers w) then w else w\<lparr>informers := informers w @ [gvr]\<rparr>)"

definition Start :: "(nat \<Rightarrow> bool) \<Rightarrow> 'h World \<Rightarrow> 'h World" where
  "Start stopCh w = w\<lparr>started := started w @ filter (\<lambda>g. g \<notin> set (started w)) (informers w)\<rparr>"

definition currentInformer ::
  "Key \<Rightarrow> ClientInterface option \<Rightarrow> 'o Factory option \<Rightarrow> (nat \<Rightarrow> bool) \<Rightarrow> 'h World
     \<Rightarrow> (failure + 'o GenericInformer) \<times> 'h World" where
  "currentInformer key client factory stopCh w =
     (case factory of
        None \<Rightarrow> (Inl (Failed (ErrorsNew ''dynamic shared informer factory is nil'')), w)
      | Some f \<Rightarrow>
         (case client of
            None \<Rightarrow> (Inl (Failed (ErrorsNew ''cluster client is nil'')), w)
          | Some c \<Rightarrow>
             (let gvk = Key_GroupVersionKind key
              in case Resource c (GVK_GroupKind gvk) of
                   Inl err \<Rightarrow> (Inl (Failed (ErrorsWrap err ''client resource'')), w)
                 | Inr gvr \<Rightarrow>
                    (case checkAccess c key gvr w of
                       (Some (Failed err), w') \<Rightarrow>
                         (Inl (Failed (ErrorsWrap err (''check access: '' @ gvr_Resource gvr))), w')
                     | (Some (Panicked p), w') \<Rightarrow> (Inl (Panicked p), w')
                     | (None, w') \<Rightarrow>
                         (case ForResource f gvr w' of
                            (informer, w'') \<Rightarrow> (Inr informer, Start stopCh w''))))))"

subsection \<open>DynamicCache.currentInformer\<close>

text \<open>
  A channel is the set of instants at which it is closed. \<open>kcache.WaitForCacheSync\<close>
  polls: it gives up with false once its stop channel is closed, returns true once the
  informer has synced, and otherwise polls again. A wait that never ends has no value.
\<close>

partial_function (option) poll_until :: "(nat \<Rightarrow> bool) \<Rightarrow> (nat \<Rightarrow> bool) \<Rightarrow> nat \<Rightarrow> bool option" where
  "poll_until stop synced t =
     (if stop t then Some False
      else if synced t then Some True
      else poll_until stop synced (Suc t))"

definition WaitForCacheSync :: "(nat \<Rightarrow> bool) \<Rightarrow> (nat \<Rightarrow> bool) \<Rightarrow> bool option" where
  "WaitForCacheSync stop synced = poll_until stop synced 0"

text \<open>\<open>context.Background().Done()\<close> is the nil channel: it is never closed.\<close>

definition Background_Done :: "nat \<Rightarrow> bool" where
  "Background_Done t = False"

text \<open>
  The struct \<open>DynamicCache\<close>. Its field \<open>initFactoryFunc\<close> is used by
  \<open>NewDynamicCache\<close> only and its mutex orders concurrent callers; neither is part of
  the state the three operations read or write.
\<close>

record 'o DynamicCache =
  factory :: "'o Factory option"
  client :: "ClientInterface option"
  stopCh :: "nat \<Rightarrow> bool"
  seenGVKs :: "GroupVersionKind \<rightharpoonup> bool"

definition DynamicCache_currentInformer ::
  "'o DynamicCache \<Rightarrow> Key \<Rightarrow> 'h World
     \<Rightarrow> ((failure + 'o GenericInformer) \<times> 'o DynamicCache \<times> 'h World) option" where
  "DynamicCache_currentInformer dc key w =
     (let gvk = Key_GroupVersionKind key
      in case currentInformer key (client dc) (factory dc) (stopCh dc) w of
           (Inl err, w') \<Rightarrow> Some (Inl err, dc, w')
         | (Inr informer, w') \<Rightarrow>
            (case seenGVKs dc gvk of
               Some ok \<Rightarrow> Some (Inr informer, dc, w')
             | None \<Rightarrow>
                (let ctx_Done = Background_Done;
                     w'' = w'\<lparr>waits := waits w' @ [resource informer]\<rparr>
                 in case WaitForCacheSync ctx_Done (HasSynced informer) of
                      None \<Rightarrow> None
                    | Some synced \<Rightarrow>
                        if \<not> synced
                        then Some (Inl (Failed (ErrorsNew ''shutting down'')), dc, w'')
                        else Some (Inr informer,
                                   dc\<lparr>seenGVKs := (seenGVKs dc)(gvk \<mapsto> True)\<rparr>, w''))))"

subsection \<open>The retry helper\<close>

text \<open>
  Package internal/util/retry is not among the sources. Neither the spec nor the sources
  say what \<open>retry.Stop\<close> does to the loop of \<open>retry.Retry\<close>, so that is a parameter of
  the model, taken in both readings: an error wrapped by \<open>Stop\<close> ends the retry at once
  and is returned unwrapped (\<open>Stop_ends_retry\<close>), or the wrapper changes nothing and the
  error is retried like any other (\<open>Stop_goes_on\<close>).
\<close>

datatype Stop_effect = Stop_ends_retry | Stop_goes_on

text \<open>The error inside a \<open>retry.Stop\<close> wrapper, if the error is one.\<close>

fun stopped :: "error \<Rightarrow> error option" where
  "stopped (RetryStop e) = Some e"
| "stopped (ErrorsNew m) = None"
| "stopped (ErrorsWrap e m) = None"
| "stopped (ErrorsWrapf e m a) = None"
| "stopped (StatusError r m) = None"

text \<open>The error the retry ends with at once, if the helper ends the retry on this error.\<close>

fun ends_retry :: "Stop_effect \<Rightarrow> error \<Rightarrow> error option" where
  "ends_retry Stop_ends_retry err = stopped err"
| "ends_retry Stop_goes_on err = None"

text \<open>
  Modelled from the spec: \<open>retry.Retry\<close>, the spec's bounded retry. It calls \<open>fn\<close> up to
  \<open>attempts\<close> times, with the fixed delay \<open>sleep\<close> before each further attempt, until \<open>fn\<close>
  returns no error. The result carries the delays slept. \<open>Get\<close>, the one caller, only
  tests the error \<open>Retry\<close> returns against nil, so which error the helper hands back
  plays no part in what \<open>Get\<close> does.
\<close>

fun Retry ::
  "Stop_effect \<Rightarrow> nat \<Rightarrow> Duration \<Rightarrow> ('s \<Rightarrow> error option \<times> 's) \<Rightarrow> 's
     \<Rightarrow> error option \<times> 's \<times> Duration list" where
  "Retry se attempts sleep fn s =
     (case fn s of
        (None, s') \<Rightarrow> (None, s', [])
      | (Some err, s') \<Rightarrow>
         (case ends_retry se err of
            Some e \<Rightarrow> (Some e, s', [])
          | None \<Rightarrow>
             if 1 < attempts
             then (case Retry se (attempts - 1) sleep fn s' of
                     (r, s'', slept) \<Rightarrow> (r, s'', sleep # slept))
             else (Some err, s', [])))"

declare Retry.simps [simp del]

subsection \<open>List, Get and Watch\<close>

text \<open>
  What \<open>Get\<close> and \<open>List\<close> take from other packages: the library functions they apply to
  what the lister returned (\<open>meta.NewAccessor().Labels\<close>, \<open>Selector.Matches\<close> and
  \<open>DefaultUnstructuredConverter.ToUnstructured\<close>; an object is a nil-able interface value),
  and the effect \<open>retry.Stop\<close> has in the retry helper.
\<close>

record ('o, 'u) Helpers =
  accessor_Labels :: "'o option \<Rightarrow> error + label_set"
  selector_Matches :: "Selector \<Rightarrow> label_set \<Rightarrow> bool"
  ToUnstructured :: "'o option \<Rightarrow> error + 'u"
  retry_Stop :: Stop_effect

definition Annotate :: "Attribute list \<Rightarrow> string \<Rightarrow> 'h World \<Rightarrow> 'h World" where
  "Annotate attrs msg w = w\<lparr>annotations := annotations w @ [(attrs, msg)]\<rparr>"

text \<open>The annotations \<open>List\<close> (lines 203 to 207) and \<open>Get\<close> (lines 252 to 257) put on
  their span before anything else.\<close>

definition List_span :: "Key \<Rightarrow> 'h World \<Rightarrow> 'h World" where
  "List_span key w =
     Annotate [StringAttribute ''namespace'' (Namespace key),
               StringAttribute ''apiVersion'' (APIVersion key),
               StringAttribute ''kind'' (Kind key)] ''list key'' w"

definition Get_span :: "Key \<Rightarrow> 'h World \<Rightarrow> 'h World" where
  "Get_span key w =
     Annotate [StringAttribute ''namespace'' (Namespace key),
               StringAttribute ''apiVersion'' (APIVersion key),
               StringAttribute ''kind'' (Kind key),
               StringAttribute ''name'' (Name key)] ''get key'' w"

text \<open>\<open>informer.Lister()\<close> for an empty namespace, \<open>ByNamespace\<close> otherwise.\<close>

definition lister_scope :: "Key \<Rightarrow> string option" where
  "lister_scope key = (if Namespace key = [] then None else Some (Namespace key))"

text \<open>The variables the closure passed to \<open>retry.Retry\<close> in \<open>Get\<close> captures.\<close>

record ('o, 'h) get_vars =
  var_object :: "'o option"
  var_err :: "error option"
  var_retryCount :: int
  var_world :: "'h World"

text \<open>Lines 274 to 285: the closure. \<open>retryCount\<close> is an int64 that is raised at most
  once per attempt, so it cannot wrap.\<close>

definition Get_attempt ::
  "'o GenericInformer \<Rightarrow> Key \<Rightarrow> ('o, 'h) get_vars \<Rightarrow> error option \<times> ('o, 'h) get_vars" where
  "Get_attempt informer key v =
     (let w = var_world v;
          w' = w\<lparr>reads := Suc (reads w)\<rparr>
      in case lister_Get informer (lister_scope key) (reads w) (Name key) of
           Inl e \<Rightarrow>
             (let v' = v\<lparr>var_object := None, var_err := Some e, var_world := w'\<rparr>
              in if \<not> IsNotFound e
                 then (Some (RetryStop (ErrorsWrap e ''lister Get'')),
                       v'\<lparr>var_retryCount := var_retryCount v' + 1\<rparr>)
                 else (Some e, v'))
         | Inr obj \<Rightarrow> (None, v\<lparr>var_object := Some obj, var_err := None, var_world := w'\<rparr>))"

text \<open>Lines 297 to 309: the selector check on the object found.\<close>

definition verify_selector :: "('o, 'u) Helpers \<Rightarrow> Key \<Rightarrow> 'o option \<Rightarrow> error option" where
  "verify_selector K key obj =
     (case Selector key of
        None \<Rightarrow> None
      | Some sel \<Rightarrow>
         (case accessor_Labels K obj of
            Inl e \<Rightarrow> Some (ErrorsNew ''retrieving labels'')
          | Inr m \<Rightarrow>
             if \<not> selector_Matches K (AsSelector sel) m
             then Some (ErrorsNew ''object found but filtered by selector'')
             else None))"

definition to_unstructured :: "('o, 'u) Helpers \<Rightarrow> 'o option \<Rightarrow> failure + 'u" where
  "to_unstructured K obj =
     (case ToUnstructured K obj of
        Inl e \<Rightarrow> Inl (Failed (ErrorsWrapf e ''converting %T to unstructured'' ArgTypeOfObject))
      | Inr u \<Rightarrow> Inr u)"

text \<open>
  Lines 264 to 315 of \<open>Get\<close>, once the informer is at hand. On a retry error the function
  returns the variable \<open>err\<close>, the error of the last lister call, not \<open>retryErr\<close>. The
  result is a pointer: \<open>Inr None\<close> stands for Go's \<open>(nil, nil)\<close>.
\<close>

definition Get_from ::
  "('o, 'u) Helpers \<Rightarrow> 'o GenericInformer \<Rightarrow> Key \<Rightarrow> 'h World \<Rightarrow> (failure + 'u option) \<times> 'h World" where
  "Get_from K informer key w =
     (case Retry (retry_Stop K) 3 Second (Get_attempt informer key)
             \<lparr>var_object = None, var_err = None, var_retryCount = 0, var_world = w\<rparr> of
        (retryErr, v, slept) \<Rightarrow>
          (let w1 = (var_world v)\<lparr>sleeps := sleeps (var_world v) @ slept\<rparr>;
               w2 = (if var_retryCount v > 0
                     then Annotate [Int64Attribute ''retryCount'' (var_retryCount v)] ''get retried'' w1
                     else w1)
           in case retryErr of
                Some re \<Rightarrow> ((case var_err v of Some e \<Rightarrow> Inl (Failed e) | None \<Rightarrow> Inr None), w2)
              | None \<Rightarrow>
                 (case verify_selector K key (var_object v) of
                    Some e \<Rightarrow> (Inl (Failed e), w2)
                  | None \<Rightarrow>
                     (case to_unstructured K (var_object v) of
                        Inl f \<Rightarrow> (Inl f, w2)
                      | Inr u \<Rightarrow> (Inr (Some u), w2)))))"

definition DynamicCache_Get ::
  "('o, 'u) Helpers \<Rightarrow> 'o DynamicCache \<Rightarrow> Key \<Rightarrow> 'h World
     \<Rightarrow> ((failure + 'u option) \<times> 'o DynamicCache \<times> 'h World) option" where
  "DynamicCache_Get K dc key w =
     (case DynamicCache_currentInformer dc key (Get_span key w) of
        None \<Rightarrow> None
      | Some (Inl (Failed e), dc', w') \<Rightarrow>
          Some (Inl (Failed (ErrorsWrapf e ''retrieving informer for %v'' (ArgKey key))), dc', w')
      | Some (Inl (Panicked p), dc', w') \<Rightarrow> Some (Inl (Panicked p), dc', w')
      | Some (Inr informer, dc', w') \<Rightarrow>
          (case Get_from K informer key w' of (r, w'') \<Rightarrow> Some (r, dc', w'')))"

text \<open>The loop of \<open>List\<close> that converts the objects: the first failure ends it.\<close>

fun convert_objects :: "('o, 'u) Helpers \<Rightarrow> 'o list \<Rightarrow> failure + 'u list" where
  "convert_objects K [] = Inr []"
| "convert_objects K (obj # objs) =
     (case to_unstructured K (Some obj) of
        Inl f \<Rightarrow> Inl f
      | Inr u \<Rightarrow> (case convert_objects K objs of Inl f \<Rightarrow> Inl f | Inr us \<Rightarrow> Inr (u # us)))"

definition List_from ::
  "('o, 'u) Helpers \<Rightarrow> 'o GenericInformer \<Rightarrow> Key \<Rightarrow> 'h World \<Rightarrow> (failure + 'u list) \<times> 'h World" where
  "List_from K informer key w =
     (let selector = (case Selector key of Some sel \<Rightarrow> AsSelector sel | None \<Rightarrow> Everything);
          w' = w\<lparr>reads := Suc (reads w)\<rparr>
      in case lister_List informer (lister_scope key) (reads w) selector of
           Inl e \<Rightarrow> (Inl (Failed (ErrorsWrapf e ''listing %v'' (ArgKey key))), w')
         | Inr objects \<Rightarrow> (convert_objects K objects, w'))"

definition DynamicCache_List ::
  "('o, 'u) Helpers \<Rightarrow> 'o DynamicCache \<Rightarrow> Key \<Rightarrow> 'h World
     \<Rightarrow> ((failure + 'u list) \<times> 'o DynamicCache \<times> 'h World) option" where
  "DynamicCache_List K dc key w =
     (case DynamicCache_currentInformer dc key (List_span key w) of
        None \<Rightarrow> None
      | Some (Inl (Failed e), dc', w') \<Rightarrow>
          Some (Inl (Failed (ErrorsWrapf e ''retrieving informer for %v'' (ArgKey key))), dc', w')
      | Some (Inl (Panicked p), dc', w') \<Rightarrow> Some (Inl (Panicked p), dc', w')
      | Some (Inr informer, dc', w') \<Rightarrow>
          (case List_from K informer key w' of (r, w'') \<Rightarrow> Some (r, dc', w'')))"

definition DynamicCache_Watch ::
  "'o DynamicCache \<Rightarrow> Key \<Rightarrow> 'h \<Rightarrow> 'h World \<Rightarrow> (failure option \<times> 'o DynamicCache \<times> 'h World) option" where
  "DynamicCache_Watch dc key handler w =
     (case DynamicCache_currentInformer dc key w of
        None \<Rightarrow> None
      | Some (Inl (Failed e), dc', w') \<Rightarrow>
          Some (Some (Failed (ErrorsWrapf e ''retrieving informer for %s'' (ArgKey key))), dc', w')
      | Some (Inl (Panicked p), dc', w') \<Rightarrow> Some (Some (Panicked p), dc', w')
      | Some (Inr informer, dc', w') \<Rightarrow>
          Some (None, dc', w'\<lparr>handlers := handlers w' @ [(resource informer, handler)]\<rparr>))"

subsection \<open>Sequences of calls\<close>

text \<open>
  The three operations of the \<open>ObjectStore\<close> interface that \<open>DynamicCache\<close> implements,
  as requests, and a caller that issues a list of them one after the other, each on the
  cache and world the one before left. A call that never returns ends the run.
\<close>

datatype 'h call = CallList Key | CallGet Key | CallWatch Key 'h

definition perform ::
  "('o, 'u) Helpers \<Rightarrow> 'h call \<Rightarrow> 'o DynamicCache \<Rightarrow> 'h World
     \<Rightarrow> ('o DynamicCache \<times> 'h World) option" where
  "perform K req dc w =
     (case req of
        CallList key \<Rightarrow> map_option snd (DynamicCache_List K dc key w)
      | CallGet key \<Rightarrow> map_option snd (DynamicCache_Get K dc key w)
      | CallWatch key handler \<Rightarrow> map_option snd (DynamicCache_Watch dc key handler w))"

fun run ::
  "('o, 'u) Helpers \<Rightarrow> 'h call list \<Rightarrow> 'o DynamicCache \<Rightarrow> 'h World
     \<Rightarrow> ('o DynamicCache \<times> 'h World) option" where
  "run K [] dc w = Some (dc, w)"
| "run K (req # reqs) dc w =
     (case perform K req dc w of
        None \<Rightarrow> None
      | Some (dc', w') \<Rightarrow> run K reqs dc' w')"

section \<open>Scenarios\<close>

text \<open>Concrete collaborators on which the theorems below are evaluated.\<close>

type_synonym pod = "string \<times> label_set"

definition pods_key :: Key where
  "pods_key =
     \<lparr>Namespace = ''default'', APIVersion = ''v1'', Kind = ''Pod'', Name = ''web'', Selector = None\<rparr>"

definition pods_gvr :: GroupVersionResource where
  "pods_gvr = GroupVersionResource [] ''v1'' ''pods''"

definition empty_world :: "nat World" where
  "empty_world =
     \<lparr>probes = [], informers = [], started = [], waits = [], reads = 0, sleeps = [],
      annotations = [], handlers = []\<rparr>"

definition allow_all :: AuthClient where
  "allow_all n ra = Inr True"

definition get_only :: AuthClient where
  "get_only n ra = Inr (ra_Verb ra = ''get'')"

definition unreachable :: AuthClient where
  "unreachable n ra = Inl (ErrorsNew ''connection refused'')"

definition list_unreachable :: AuthClient where
  "list_unreachable n ra =
     (if ra_Verb ra = ''list'' then Inl (ErrorsNew ''connection refused'') else Inr True)"

definition default_namespace_only :: AuthClient where
  "default_namespace_only n ra = Inr (ra_Namespace ra = ''default'')"

definition cluster_client :: "AuthClient \<Rightarrow> ClientInterface" where
  "cluster_client a = \<lparr>Resource = (\<lambda>gk. Inr pods_gvr), KubernetesClient = (Some a, None)\<rparr>"


definition web_pod :: pod where
  "web_pod = (''web'', [(''app'', ''web'')])"


definition timeout :: error where
  "timeout = StatusError StatusReasonTimeout ''request timed out''"


definition present :: "nat \<Rightarrow> error + pod" where
  "present n = Inr web_pod"


definition times_out :: "nat \<Rightarrow> error + pod" where
  "times_out n = Inl timeout"

definition times_out_twice :: "nat \<Rightarrow> error + pod" where
  "times_out_twice n = (if n < 2 then Inl timeout else Inr web_pod)"

definition pods_informer :: "(nat \<Rightarrow> bool) \<Rightarrow> (nat \<Rightarrow> error + pod) \<Rightarrow> pod GenericInformer" where
  "pods_informer synced script =
     \<lparr>resource = pods_gvr, HasSynced = synced,
      lister_List = (\<lambda>scope n sel. Inr []),
      lister_Get = (\<lambda>scope n name. script n)\<rparr>"

definition always :: "nat \<Rightarrow> bool" where
  "always t = True"

definition never :: "nat \<Rightarrow> bool" where
  "never t = False"

definition cache :: "AuthClient \<Rightarrow> pod GenericInformer \<Rightarrow> (nat \<Rightarrow> bool) \<Rightarrow> pod DynamicCache" where
  "cache a informer stop =
     \<lparr>factory = Some (\<lambda>gvr. informer), client = Some (cluster_client a), stopCh = stop,
      seenGVKs = Map.empty\<rparr>"

definition library :: "(pod, pod) Helpers" where
  "library =
     \<lparr>accessor_Labels =
        (\<lambda>obj. case obj of
                 None \<Rightarrow> Inl (ErrorsNew ''object does not implement the Object interfaces'')
               | Some (n, ls) \<Rightarrow> Inr ls),
      selector_Matches =
        (\<lambda>sel ls. case sel of
                    Everything \<Rightarrow> True
                  | AsSelector req \<Rightarrow> list_all (\<lambda>(k, v). map_of ls k = Some v) req),
      ToUnstructured =
        (\<lambda>obj. case obj of None \<Rightarrow> Inl (ErrorsNew ''nil object'') | Some x \<Rightarrow> Inr x),
      retry_Stop = Stop_goes_on\<rparr>"

section \<open>Properties of the access check\<close>

lemma checkVerb_world:
  "snd (checkVerb a key gvr verb w) = w\<lparr>probes := probes w @ [resourceAttributes key gvr verb]\<rparr>"
  by (simp add: checkVerb_def Let_def split: sum.splits)

lemma checkVerbs_three:
  assumes "checkVerb a key gvr ''get'' w = (g, w1)"
      and "checkVerb a key gvr ''list'' w1 = (l, w2)"
      and "checkVerb a key gvr ''watch'' w2 = (wa, w3)"
  shows "checkVerbs a key gvr [''get'', ''list'', ''watch'']
           [(''get'', False), (''list'', False), (''watch'', False)] w
         = ([(''get'', g), (''list'', l), (''watch'', wa)], w3)"
  using assms by simp

lemma checkAccess_three:
  assumes "KubernetesClient c = (Some a, err)"
      and "checkVerb a key gvr ''get'' w = (g, w1)"
      and "checkVerb a key gvr ''list'' w1 = (l, w2)"
      and "checkVerb a key gvr ''watch'' w2 = (wa, w3)"
  shows "checkAccess c key gvr w =
           (if g \<and> l \<and> wa then (None, w3)
            else (Some (Failed (ErrorsNew
                    (''requires cluster scoped get/list/watch access, have get: '' @ fmt_bool g @
                     '', list: '' @ fmt_bool l @ '', watch: '' @ fmt_bool wa))), w3))"
  unfolding checkAccess_def
  by (simp add: assms(1) checkVerbs_three[OF assms(2,3,4)] currentAccess_def lookup_verb_def
        del: checkVerbs.simps)

lemma checkVerb_error:
  "a (length (probes w)) (resourceAttributes key gvr verb) = Inl e \<Longrightarrow>
   fst (checkVerb a key gvr verb w) = False"
  by (simp add: checkVerb_def Let_def)

lemma checkVerb_answer:
  "fst (checkVerb a key gvr verb w) =
     (a (length (probes w)) (resourceAttributes key gvr verb) = Inr True)"
  by (simp add: checkVerb_def Let_def split: sum.splits)

lemma checkAccess_probes:
  assumes "KubernetesClient c = (Some a, err)"
  shows "snd (checkAccess c key gvr w) =
           w\<lparr>probes := probes w @ map (resourceAttributes key gvr) [''get'', ''list'', ''watch'']\<rparr>"
proof -
  obtain g w1 where 1: "checkVerb a key gvr ''get'' w = (g, w1)"
    by (cases "checkVerb a key gvr ''get'' w")
  obtain l w2 where 2: "checkVerb a key gvr ''list'' w1 = (l, w2)"
    by (cases "checkVerb a key gvr ''list'' w1")
  obtain wa w3 where 3: "checkVerb a key gvr ''watch'' w2 = (wa, w3)"
    by (cases "checkVerb a key gvr ''watch'' w2")
  from 1 have w1: "w1 = w\<lparr>probes := probes w @ [resourceAttributes key gvr ''get'']\<rparr>"
    using checkVerb_world[of a key gvr "''get''" w] by simp
  from 2 have w2: "w2 = w1\<lparr>probes := probes w1 @ [resourceAttributes key gvr ''list'']\<rparr>"
    using checkVerb_world[of a key gvr "''list''" w1] by simp
  from 3 have w3: "w3 = w2\<lparr>probes := probes w2 @ [resourceAttributes key gvr ''watch'']\<rparr>"
    using checkVerb_world[of a key gvr "''watch''" w2] by simp
  show ?thesis
    by (simp add: checkAccess_three[OF assms 1 2 3] w1 w2 w3)
qed

lemma get_only_verbs:
  "checkVerb get_only pods_key pods_gvr ''get'' w =
     (True, snd (checkVerb get_only pods_key pods_gvr ''get'' w))"
  "checkVerb get_only pods_key pods_gvr ''list'' w =
     (False, snd (checkVerb get_only pods_key pods_gvr ''list'' w))"
  "checkVerb get_only pods_key pods_gvr ''watch'' w =
     (False, snd (checkVerb get_only pods_key pods_gvr ''watch'' w))"
  by (simp_all add: checkVerb_def get_only_def resourceAttributes_def Let_def)

text \<open>
  C4, as the code has it. Whenever one of the three verbs is denied, \<open>checkAccess\<close> fails,
  and the text of its error is \<open>requires cluster scoped get/list/watch access, have
  get: b, list: b, watch: b\<close> with the answer of each verb's review (with a space after
  each colon, and \<open>cluster scoped\<close> where the claim writes \<open>scope-wide\<close>).
\<close>

theorem checkAccess_denied_message:
  assumes "KubernetesClient c = (Some a, err)"
      and "checkVerb a key gvr ''get'' w = (g, w1)"
      and "checkVerb a key gvr ''list'' w1 = (l, w2)"
      and "checkVerb a key gvr ''watch'' w2 = (wa, w3)"
      and "\<not> (g \<and> l \<and> wa)"
  shows "checkAccess c key gvr w =
           (Some (Failed (ErrorsNew
              (''requires cluster scoped get/list/watch access, have get: '' @ fmt_bool g @
               '', list: '' @ fmt_bool l @ '', watch: '' @ fmt_bool wa))), w3)"
  using checkAccess_three[OF assms(1,2,3,4)] assms(5) by simp

text \<open>
  C4, witness: a caller granted only \<open>get\<close> on pods is told
  \<open>get: true, list: false, watch: false\<close>.
\<close>

theorem checkAccess_denied_message_witness:
  "fst (checkAccess (cluster_client get_only) pods_key pods_gvr empty_world) =
     Some (Failed (ErrorsNew
       ''requires cluster scoped get/list/watch access, have get: true, list: false, watch: false''))"
proof -
  have c: "KubernetesClient (cluster_client get_only) = (Some get_only, None)"
    by (simp add: cluster_client_def)
  from checkAccess_denied_message[OF c get_only_verbs(1)[of empty_world] get_only_verbs(2)
      get_only_verbs(3)]
  show ?thesis
    by (simp add: fmt_bool_def)
qed

text \<open>
  C4, counterexample: for the caller granted only \<open>get\<close>, the error text is not the one
  the claim gives as the exact format.
\<close>

theorem checkAccess_text_counterexample:
  "fst (checkAccess (cluster_client get_only) pods_key pods_gvr empty_world) \<noteq>
     Some (Failed (ErrorsNew
       ''requires scope-wide get/list/watch access, have get:true, list:false, watch:false''))"
proof -
  have c: "KubernetesClient (cluster_client get_only) = (Some get_only, None)"
    by (simp add: cluster_client_def)
  from checkAccess_three[OF c get_only_verbs(1)[of empty_world] get_only_verbs(2)
      get_only_verbs(3)]
  show ?thesis
    by (simp add: fmt_bool_def)
qed

text \<open>
  C6, what the code does where the claim fails: when \<open>client.KubernetesClient()\<close> returns
  an error and no client, \<open>checkAccess\<close> does not return that error; it goes on and
  panics. When the error comes with a client, the error changes nothing.
\<close>

theorem checkAccess_client_error_dropped:
  "checkAccess (c\<lparr>KubernetesClient := (None, Some e)\<rparr>) key gvr w =
     (Some (Panicked ''invalid memory address or nil pointer dereference''), w)
   \<and> checkAccess (c\<lparr>KubernetesClient := (Some a, Some e)\<rparr>) key gvr w =
     checkAccess (c\<lparr>KubernetesClient := (Some a, None)\<rparr>) key gvr w"
  by (simp add: checkAccess_def)

text \<open>
  C9: each verb is reported granted exactly when its review came back without error and
  allowed. So when the review of one of the three verbs fails with an error, that verb is
  reported denied, the other two are reported as their own reviews answered, and
  \<open>checkAccess\<close> fails with the access-denied error; the error of the review itself is not
  what the caller gets.
\<close>

theorem probe_error_is_denial:
  assumes "KubernetesClient c = (Some a, err)"
      and "a (length (probes w)) (resourceAttributes key gvr ''get'') = Inl e
           \<or> a (length (probes w) + 1) (resourceAttributes key gvr ''list'') = Inl e
           \<or> a (length (probes w) + 2) (resourceAttributes key gvr ''watch'') = Inl e"
  shows "\<exists>g l wa.
           g = (a (length (probes w)) (resourceAttributes key gvr ''get'') = Inr True)
         \<and> l = (a (length (probes w) + 1) (resourceAttributes key gvr ''list'') = Inr True)
         \<and> wa = (a (length (probes w) + 2) (resourceAttributes key gvr ''watch'') = Inr True)
         \<and> (a (length (probes w)) (resourceAttributes key gvr ''get'') = Inl e \<longrightarrow> \<not> g)
         \<and> (a (length (probes w) + 1) (resourceAttributes key gvr ''list'') = Inl e \<longrightarrow> \<not> l)
         \<and> (a (length (probes w) + 2) (resourceAttributes key gvr ''watch'') = Inl e \<longrightarrow> \<not> wa)
         \<and> \<not> (g \<and> l \<and> wa)
         \<and> fst (checkAccess c key gvr w) =
             Some (Failed (ErrorsNew
               (''requires cluster scoped get/list/watch access, have get: '' @ fmt_bool g @
                '', list: '' @ fmt_bool l @ '', watch: '' @ fmt_bool wa)))"
proof -
  obtain g w1 where 1: "checkVerb a key gvr ''get'' w = (g, w1)"
    by (cases "checkVerb a key gvr ''get'' w")
  obtain l w2 where 2: "checkVerb a key gvr ''list'' w1 = (l, w2)"
    by (cases "checkVerb a key gvr ''list'' w1")
  obtain wa w3 where 3: "checkVerb a key gvr ''watch'' w2 = (wa, w3)"
    by (cases "checkVerb a key gvr ''watch'' w2")
  from 1 have w1: "w1 = w\<lparr>probes := probes w @ [resourceAttributes key gvr ''get'']\<rparr>"
    using checkVerb_world[of a key gvr "''get''" w] by simp
  from 2 have w2: "w2 = w1\<lparr>probes := probes w1 @ [resourceAttributes key gvr ''list'']\<rparr>"
    using checkVerb_world[of a key gvr "''list''" w1] by simp
  from 1 checkVerb_answer[of a key gvr "''get''" w]
  have g: "g = (a (length (probes w)) (resourceAttributes key gvr ''get'') = Inr True)"
    by simp
  from 2 checkVerb_answer[of a key gvr "''list''" w1]
  have l: "l = (a (length (probes w) + 1) (resourceAttributes key gvr ''list'') = Inr True)"
    by (simp add: w1)
  from 3 checkVerb_answer[of a key gvr "''watch''" w2]
  have wa: "wa = (a (length (probes w) + 2) (resourceAttributes key gvr ''watch'') = Inr True)"
    by (simp add: w1 w2)
  have eg: "a (length (probes w)) (resourceAttributes key gvr ''get'') = Inl e \<longrightarrow> \<not> g"
    by (simp add: g)
  have el: "a (length (probes w) + 1) (resourceAttributes key gvr ''list'') = Inl e \<longrightarrow> \<not> l"
    by (simp add: l)
  have ewa: "a (length (probes w) + 2) (resourceAttributes key gvr ''watch'') = Inl e \<longrightarrow> \<not> wa"
    by (simp add: wa)
  from assms(2) eg el ewa have n: "\<not> (g \<and> l \<and> wa)"
    by blast
  with checkAccess_three[OF assms(1) 1 2 3]
  have t: "fst (checkAccess c key gvr w) =
             Some (Failed (ErrorsNew
               (''requires cluster scoped get/list/watch access, have get: '' @ fmt_bool g @
                '', list: '' @ fmt_bool l @ '', watch: '' @ fmt_bool wa)))"
    by auto
  show ?thesis
    by (rule exI[of _ g], rule exI[of _ l], rule exI[of _ wa]) (intro conjI g l wa eg el ewa n t)
qed

text \<open>
  C9, witness: the authorization endpoint answers the reviews for \<open>get\<close> and \<open>watch\<close> with
  allowed and refuses the connection for the review of \<open>list\<close>. The caller gets the
  access-denied text, with \<open>list\<close> the one verb reported false.
\<close>

theorem probe_error_is_denial_witness:
  "list_unreachable (length (probes empty_world)) (resourceAttributes pods_key pods_gvr ''get'')
     = Inr True
   \<and> list_unreachable (length (probes empty_world) + 1) (resourceAttributes pods_key pods_gvr ''list'')
     = Inl (ErrorsNew ''connection refused'')
   \<and> list_unreachable (length (probes empty_world) + 2) (resourceAttributes pods_key pods_gvr ''watch'')
     = Inr True
   \<and> fst (checkAccess (cluster_client list_unreachable) pods_key pods_gvr empty_world) =
       Some (Failed (ErrorsNew
         ''requires cluster scoped get/list/watch access, have get: true, list: false, watch: true''))"
proof -
  have c: "KubernetesClient (cluster_client list_unreachable) = (Some list_unreachable, None)"
    by (simp add: cluster_client_def)
  have eg: "list_unreachable (length (probes empty_world)) (resourceAttributes pods_key pods_gvr ''get'')
     = Inr True"
    by (simp add: list_unreachable_def resourceAttributes_def Let_def)
  have el: "list_unreachable (length (probes empty_world) + 1) (resourceAttributes pods_key pods_gvr ''list'')
     = Inl (ErrorsNew ''connection refused'')"
    by (simp add: list_unreachable_def resourceAttributes_def Let_def)
  have ew: "list_unreachable (length (probes empty_world) + 2) (resourceAttributes pods_key pods_gvr ''watch'')
     = Inr True"
    by (simp add: list_unreachable_def resourceAttributes_def Let_def)
  from probe_error_is_denial[OF c disjI2, OF disjI1, OF el]
  obtain g l wa where
    og: "g = (list_unreachable (length (probes empty_world)) (resourceAttributes pods_key pods_gvr ''get'')
            = Inr True)" and
    ol: "l = (list_unreachable (length (probes empty_world) + 1) (resourceAttributes pods_key pods_gvr ''list'')
            = Inr True)" and
    ow: "wa = (list_unreachable (length (probes empty_world) + 2) (resourceAttributes pods_key pods_gvr ''watch'')
            = Inr True)" and
    ot: "fst (checkAccess (cluster_client list_unreachable) pods_key pods_gvr empty_world) =
       Some (Failed (ErrorsNew
         (''requires cluster scoped get/list/watch access, have get: '' @ fmt_bool g @
          '', list: '' @ fmt_bool l @ '', watch: '' @ fmt_bool wa)))"
    by blast
  from og eg have gv: "g" by simp
  from ol el have lv: "\<not> l" by simp
  from ow ew have wv: "wa" by simp
  from ot gv lv wv have
    "fst (checkAccess (cluster_client list_unreachable) pods_key pods_gvr empty_world) =
       Some (Failed (ErrorsNew
         ''requires cluster scoped get/list/watch access, have get: true, list: false, watch: true''))"
    by (simp add: fmt_bool_def)
  with eg el ew show ?thesis by (intro conjI)
qed

text \<open>
  C10: for a key with a non-empty namespace, each of the three reviews \<open>checkAccess\<close>
  creates asks about the all-namespaces scope, and a caller who is denied there (whatever
  it is granted inside a namespace) is denied access.
\<close>

theorem probe_is_cluster_wide:
  assumes "Namespace key \<noteq> []"
      and "KubernetesClient c = (Some a, err)"
      and "\<forall>n ra. ra_Namespace ra = NamespaceAll \<longrightarrow> a n ra = Inr False"
  shows "(\<forall>verb. ra_Namespace (resourceAttributes key gvr verb) = NamespaceAll)
       \<and> probes (snd (checkAccess c key gvr w)) =
           probes w @ map (\<lambda>verb. ResourceAttributes verb (gvr_Group gvr) (gvr_Version gvr)
                                   (gvr_Resource gvr) NamespaceAll) [''get'', ''list'', ''watch'']
       \<and> fst (checkAccess c key gvr w) =
           Some (Failed (ErrorsNew
             ''requires cluster scoped get/list/watch access, have get: false, list: false, watch: false''))"
proof -
  have ns: "\<And>verb. ra_Namespace (resourceAttributes key gvr verb) = NamespaceAll"
    using assms(1) by (simp add: resourceAttributes_def Let_def)
  have ra: "\<And>verb. resourceAttributes key gvr verb =
      ResourceAttributes verb (gvr_Group gvr) (gvr_Version gvr) (gvr_Resource gvr) NamespaceAll"
    using assms(1) by (simp add: resourceAttributes_def Let_def)
  have denied: "\<And>verb w'. checkVerb a key gvr verb w' = (False, snd (checkVerb a key gvr verb w'))"
    using assms(3) ns by (simp add: checkVerb_def Let_def)
  from checkAccess_three[OF assms(2) denied denied denied, of w]
  have "fst (checkAccess c key gvr w) =
           Some (Failed (ErrorsNew
             ''requires cluster scoped get/list/watch access, have get: false, list: false, watch: false''))"
    by (simp add: fmt_bool_def)
  moreover have "probes (snd (checkAccess c key gvr w)) =
           probes w @ map (\<lambda>verb. ResourceAttributes verb (gvr_Group gvr) (gvr_Version gvr)
                                   (gvr_Resource gvr) NamespaceAll) [''get'', ''list'', ''watch'']"
    by (simp add: checkAccess_probes[OF assms(2)] ra)
  ultimately show ?thesis using ns by blast
qed

text \<open>
  C10, witness: a caller allowed everything in namespace \<open>default\<close> and nothing
  cluster-wide asks for pods of \<open>default\<close>; the three reviews carry the empty
  namespace and access is denied.
\<close>

theorem probe_is_cluster_wide_witness:
  "Namespace pods_key = ''default''
   \<and> default_namespace_only 0 (ResourceAttributes ''get'' [] ''v1'' ''pods'' ''default'') = Inr True
   \<and> probes (snd (checkAccess (cluster_client default_namespace_only) pods_key pods_gvr empty_world)) =
       [ResourceAttributes ''get'' [] ''v1'' ''pods'' [],
        ResourceAttributes ''list'' [] ''v1'' ''pods'' [],
        ResourceAttributes ''watch'' [] ''v1'' ''pods'' []]
   \<and> fst (checkAccess (cluster_client default_namespace_only) pods_key pods_gvr empty_world) =
       Some (Failed (ErrorsNew
         ''requires cluster scoped get/list/watch access, have get: false, list: false, watch: false''))"
proof -
  have k: "Namespace pods_key \<noteq> []" by (simp add: pods_key_def)
  have c: "KubernetesClient (cluster_client default_namespace_only) = (Some default_namespace_only, None)"
    by (simp add: cluster_client_def)
  have a: "\<forall>n ra. ra_Namespace ra = NamespaceAll \<longrightarrow> default_namespace_only n ra = Inr False"
    by (simp add: default_namespace_only_def NamespaceAll_def)
  from probe_is_cluster_wide[OF k c a, of pods_gvr empty_world]
  show ?thesis
    by (simp add: pods_key_def default_namespace_only_def pods_gvr_def empty_world_def NamespaceAll_def)
qed

section \<open>Resolution of the informer\<close>

lemma poll_until_now:
  "\<not> stop t \<Longrightarrow> synced t \<Longrightarrow> poll_until stop synced t = Some True"
  by (subst poll_until.simps) simp

lemma poll_until_later:
  "\<not> stop t \<Longrightarrow> \<not> synced t \<Longrightarrow> poll_until stop synced t = poll_until stop synced (Suc t)"
  by (subst poll_until.simps) simp

lemma poll_until_Some:
  "poll_until stop synced t = Some b \<Longrightarrow> \<exists>k. stop (t + k) \<or> synced (t + k)"
proof (induction rule: poll_until.raw_induct[rotated 1, consumes 1])
  case (1 poll stop synced t b)
  show ?case
  proof (cases "stop t \<or> synced t")
    case True
    then have "stop (t + 0) \<or> synced (t + 0)" by simp
    then show ?thesis by blast
  next
    case False
    with 1(2) have "poll stop synced (Suc t) = Some b" by simp
    from 1(1)[OF this] obtain k where "stop (Suc t + k) \<or> synced (Suc t + k)" by blast
    then have "stop (t + Suc k) \<or> synced (t + Suc k)" by simp
    then show ?thesis by blast
  qed
qed

lemma poll_until_never:
  assumes "\<And>k. \<not> stop k" and "\<And>k. \<not> synced k"
  shows "poll_until stop synced t = None"
proof (cases "poll_until stop synced t")
  case None then show ?thesis .
next
  case (Some b)
  from poll_until_Some[OF this] assms show ?thesis by blast
qed

lemma poll_until_eventually:
  assumes "\<And>k. \<not> stop k"
  shows "synced (t + k) \<Longrightarrow> poll_until stop synced t = Some True"
proof (induction k arbitrary: t)
  case 0
  then show ?case using assms by (simp add: poll_until_now)
next
  case (Suc k)
  show ?case
  proof (cases "synced t")
    case True
    then show ?thesis using assms by (simp add: poll_until_now)
  next
    case False
    from Suc.prems have "synced (Suc t + k)" by simp
    from Suc.IH[OF this] False assms show ?thesis by (simp add: poll_until_later)
  qed
qed

lemma WaitForCacheSync_Background:
  "WaitForCacheSync Background_Done synced = (if \<exists>k. synced k then Some True else None)"
proof (cases "\<exists>k. synced k")
  case True
  then obtain k where "synced (0 + k)" by auto
  from poll_until_eventually[of Background_Done synced 0 k, OF _ this] True
  show ?thesis by (simp add: WaitForCacheSync_def Background_Done_def)
next
  case False
  then show ?thesis
    by (simp add: WaitForCacheSync_def Background_Done_def poll_until_never)
qed

subsection \<open>Facts about the wait and about currentInformer\<close>

lemma checkAccess_frame:
  "snd (checkAccess c key gvr w) = w\<lparr>probes := probes (snd (checkAccess c key gvr w))\<rparr>"
proof (cases "KubernetesClient c")
  case (Pair k e)
  show ?thesis
  proof (cases k)
    case None
    with Pair show ?thesis by (simp add: checkAccess_def)
  next
    case (Some a)
    with Pair have "KubernetesClient c = (Some a, e)" by simp
    from checkAccess_probes[OF this, of key gvr w] show ?thesis by simp
  qed
qed

lemma checkAccess_fields:
  "informers (snd (checkAccess c key gvr w)) = informers w"
  "started (snd (checkAccess c key gvr w)) = started w"
  "waits (snd (checkAccess c key gvr w)) = waits w"
  "reads (snd (checkAccess c key gvr w)) = reads w"
  "sleeps (snd (checkAccess c key gvr w)) = sleeps w"
  "annotations (snd (checkAccess c key gvr w)) = annotations w"
  "handlers (snd (checkAccess c key gvr w)) = handlers w"
  by (subst checkAccess_frame, simp)+

lemma currentInformer_snd:
  "snd (currentInformer key cl fa stop w) =
     (case fa of
        None \<Rightarrow> w
      | Some f \<Rightarrow>
         (case cl of
            None \<Rightarrow> w
          | Some c \<Rightarrow>
             (case Resource c (GVK_GroupKind (Key_GroupVersionKind key)) of
                Inl e \<Rightarrow> w
              | Inr gvr \<Rightarrow>
                 (case fst (checkAccess c key gvr w) of
                    Some x \<Rightarrow> snd (checkAccess c key gvr w)
                  | None \<Rightarrow> Start stop (snd (ForResource f gvr (snd (checkAccess c key gvr w))))))))"
  by (auto simp: currentInformer_def Let_def split: option.splits sum.splits prod.splits failure.splits)

lemma currentInformer_fst:
  "fst (currentInformer key cl fa stop w) =
     (case fa of
        None \<Rightarrow> Inl (Failed (ErrorsNew ''dynamic shared informer factory is nil''))
      | Some f \<Rightarrow>
         (case cl of
            None \<Rightarrow> Inl (Failed (ErrorsNew ''cluster client is nil''))
          | Some c \<Rightarrow>
             (case Resource c (GVK_GroupKind (Key_GroupVersionKind key)) of
                Inl e \<Rightarrow> Inl (Failed (ErrorsWrap e ''client resource''))
              | Inr gvr \<Rightarrow>
                 (case fst (checkAccess c key gvr w) of
                    Some (Failed e) \<Rightarrow> Inl (Failed (ErrorsWrap e (''check access: '' @ gvr_Resource gvr)))
                  | Some (Panicked p) \<Rightarrow> Inl (Panicked p)
                  | None \<Rightarrow> Inr (f gvr)))))"
  by (auto simp: currentInformer_def Let_def ForResource_def split: option.splits sum.splits prod.splits failure.splits)

lemma currentInformer_frame:
  "waits (snd (currentInformer key cl fa stop w)) = waits w"
  "reads (snd (currentInformer key cl fa stop w)) = reads w"
  "sleeps (snd (currentInformer key cl fa stop w)) = sleeps w"
  "annotations (snd (currentInformer key cl fa stop w)) = annotations w"
  "handlers (snd (currentInformer key cl fa stop w)) = handlers w"
  by (simp_all add: currentInformer_snd checkAccess_fields ForResource_def Start_def
        split: option.splits sum.splits)



subsection \<open>Facts about DynamicCache.currentInformer\<close>

lemma DynamicCache_currentInformer_eq:
  "DynamicCache_currentInformer dc key w =
     (case currentInformer key (client dc) (factory dc) (stopCh dc) w of
        (Inl e, w') \<Rightarrow> Some (Inl e, dc, w')
      | (Inr informer, w') \<Rightarrow>
         (case seenGVKs dc (Key_GroupVersionKind key) of
            Some ok \<Rightarrow> Some (Inr informer, dc, w')
          | None \<Rightarrow>
             if \<exists>k. HasSynced informer k
             then Some (Inr informer,
                        dc\<lparr>seenGVKs := (seenGVKs dc)(Key_GroupVersionKind key \<mapsto> True)\<rparr>,
                        w'\<lparr>waits := waits w' @ [resource informer]\<rparr>)
             else None))"
  by (simp add: DynamicCache_currentInformer_def Let_def WaitForCacheSync_Background
        split: prod.splits sum.splits option.splits)

lemma DynamicCache_currentInformer_seen:
  assumes "seenGVKs dc (Key_GroupVersionKind key) = Some b"
  shows "DynamicCache_currentInformer dc key w =
           Some (fst (currentInformer key (client dc) (factory dc) (stopCh dc) w), dc,
                 snd (currentInformer key (client dc) (factory dc) (stopCh dc) w))"
  by (simp add: DynamicCache_currentInformer_eq assms split: prod.splits sum.splits)

lemma DynamicCache_currentInformer_Some:
  assumes "DynamicCache_currentInformer dc key w = Some (r, dc', w')"
  shows "r = fst (currentInformer key (client dc) (factory dc) (stopCh dc) w)
       \<and> probes w' = probes (snd (currentInformer key (client dc) (factory dc) (stopCh dc) w))
       \<and> informers w' = informers (snd (currentInformer key (client dc) (factory dc) (stopCh dc) w))
       \<and> (dc' = dc \<and> w' = snd (currentInformer key (client dc) (factory dc) (stopCh dc) w)
          \<or> seenGVKs dc (Key_GroupVersionKind key) = None
            \<and> dc' = dc\<lparr>seenGVKs := (seenGVKs dc)(Key_GroupVersionKind key \<mapsto> True)\<rparr>)"
  using assms
  by (auto simp: DynamicCache_currentInformer_eq split: prod.splits sum.splits option.splits if_splits)

lemma DynamicCache_currentInformer_mono:
  assumes "DynamicCache_currentInformer dc key w = Some (r, dc', w')"
      and "seenGVKs dc gvk = Some b"
  shows "seenGVKs dc' gvk = Some b"
  using DynamicCache_currentInformer_Some[OF assms(1)] assms(2) by auto

subsection \<open>Facts about the retry helper and the closure of Get\<close>

lemma Retry_invariant:
  "(\<And>s e s'. P s \<Longrightarrow> fn s = (e, s') \<Longrightarrow> P s') \<Longrightarrow> P s \<Longrightarrow> P (fst (snd (Retry se n sl fn s)))"
proof (induction se n sl fn s rule: Retry.induct)
  case (1 se attempts sleep fn s)
  obtain e s' where f: "fn s = (e, s')" by (cases "fn s")
  from "1.prems" f have P': "P s'" by blast
  show ?case
  proof (cases e)
    case None
    with f P' show ?thesis by (subst Retry.simps) simp
  next
    case (Some err)
    show ?thesis
    proof (cases "ends_retry se err")
      case (Some e')
      with f P' \<open>e = Some err\<close> show ?thesis by (subst Retry.simps) simp
    next
      case None
      show ?thesis
      proof (cases "1 < attempts")
        case False
        with f P' \<open>e = Some err\<close> None show ?thesis by (subst Retry.simps) simp
      next
        case True
        have "P (fst (snd (Retry se (attempts - 1) sleep fn s')))"
        proof (rule "1.IH"[OF f[symmetric] \<open>e = Some err\<close> None True])
          show "\<And>s e s'. P s \<Longrightarrow> fn s = (e, s') \<Longrightarrow> P s'" by (rule "1.prems"(1))
          show "P s'" by (rule P')
        qed
        with f \<open>e = Some err\<close> None True show ?thesis
          by (subst Retry.simps) (auto split: prod.splits)
      qed
    qed
  qed
qed

lemma Retry_ok:
  "fn s = (None, s') \<Longrightarrow> Retry se n sl fn s = (None, s', [])"
  by (subst Retry.simps) simp

lemma Retry_stop:
  "fn s = (Some e, s') \<Longrightarrow> ends_retry se e = Some e' \<Longrightarrow> Retry se n sl fn s = (Some e', s', [])"
  by (subst Retry.simps) simp

lemma Retry_again:
  "fn s = (Some e, s') \<Longrightarrow> ends_retry se e = None \<Longrightarrow> 1 < n \<Longrightarrow>
   Retry se n sl fn s =
     (case Retry se (n - 1) sl fn s' of (r, s'', slept) \<Rightarrow> (r, s'', sl # slept))"
  by (subst Retry.simps) simp

lemma Retry_last:
  "fn s = (Some e, s') \<Longrightarrow> ends_retry se e = None \<Longrightarrow> \<not> 1 < n \<Longrightarrow>
   Retry se n sl fn s = (Some e, s', [])"
  by (subst Retry.simps) simp

lemma IsNotFound_not_stopped:
  "IsNotFound e \<Longrightarrow> ends_retry se e = None"
  by (cases e; cases se) simp_all

lemma Get_attempt_found:
  "lister_Get i (lister_scope key) (reads (var_world v)) (Name key) = Inr obj \<Longrightarrow>
   Get_attempt i key v =
     (None, v\<lparr>var_object := Some obj, var_err := None,
              var_world := (var_world v)\<lparr>reads := Suc (reads (var_world v))\<rparr>\<rparr>)"
  by (simp add: Get_attempt_def Let_def)

lemma Get_attempt_not_found:
  "lister_Get i (lister_scope key) (reads (var_world v)) (Name key) = Inl e \<Longrightarrow> IsNotFound e \<Longrightarrow>
   Get_attempt i key v =
     (Some e, v\<lparr>var_object := None, var_err := Some e,
                var_world := (var_world v)\<lparr>reads := Suc (reads (var_world v))\<rparr>\<rparr>)"
  by (simp add: Get_attempt_def Let_def)

lemma Get_attempt_other:
  "lister_Get i (lister_scope key) (reads (var_world v)) (Name key) = Inl e \<Longrightarrow> \<not> IsNotFound e \<Longrightarrow>
   Get_attempt i key v =
     (Some (RetryStop (ErrorsWrap e ''lister Get'')),
      v\<lparr>var_object := None, var_err := Some e,
        var_world := (var_world v)\<lparr>reads := Suc (reads (var_world v))\<rparr>,
        var_retryCount := var_retryCount v + 1\<rparr>)"
  by (simp add: Get_attempt_def Let_def)

lemma Get_attempt_world:
  "var_world (snd (Get_attempt i key v)) = (var_world v)\<lparr>reads := Suc (reads (var_world v))\<rparr>"
  by (simp add: Get_attempt_def Let_def split: sum.splits)

lemma Get_from_frame:
  "probes (snd (Get_from K i key w)) = probes w
   \<and> informers (snd (Get_from K i key w)) = informers w
   \<and> waits (snd (Get_from K i key w)) = waits w
   \<and> handlers (snd (Get_from K i key w)) = handlers w"
proof -
  let ?P = "\<lambda>v. probes (var_world v) = probes w \<and> informers (var_world v) = informers w
                \<and> waits (var_world v) = waits w \<and> handlers (var_world v) = handlers w"
  let ?v0 = "\<lparr>var_object = None, var_err = None, var_retryCount = 0, var_world = w\<rparr>"
  have step: "\<And>s e s'. ?P s \<Longrightarrow> Get_attempt i key s = (e, s') \<Longrightarrow> ?P s'"
  proof -
    fix s e s' assume P: "?P s" and g: "Get_attempt i key s = (e, s')"
    from g have "var_world s' = (var_world s)\<lparr>reads := Suc (reads (var_world s))\<rparr>"
      using Get_attempt_world[of i key s] by simp
    with P show "?P s'" by simp
  qed
  have "?P (fst (snd (Retry (retry_Stop K) 3 Second (Get_attempt i key) ?v0)))"
    by (rule Retry_invariant[where P = ?P, OF step]) simp_all
  moreover obtain re v slept where R: "Retry (retry_Stop K) 3 Second (Get_attempt i key) ?v0 = (re, v, slept)"
    by (cases "Retry (retry_Stop K) 3 Second (Get_attempt i key) ?v0")
  ultimately have "?P v" by simp
  then show ?thesis
    by (simp add: Get_from_def R Let_def Annotate_def split: option.splits sum.splits)
qed

lemma List_from_frame:
  "probes (snd (List_from K i key w)) = probes w
   \<and> informers (snd (List_from K i key w)) = informers w
   \<and> waits (snd (List_from K i key w)) = waits w
   \<and> handlers (snd (List_from K i key w)) = handlers w"
  by (simp add: List_from_def Let_def split: sum.splits)

subsection \<open>Each operation starts by resolving the informer\<close>

lemma DynamicCache_Get_Some:
  assumes "DynamicCache_Get K dc key w = Some (r, dc', w')"
  shows "\<exists>r0 w0. DynamicCache_currentInformer dc key (Get_span key w) = Some (r0, dc', w0)
           \<and> probes w' = probes w0 \<and> informers w' = informers w0 \<and> waits w' = waits w0"
proof -
  from assms obtain r0 w0 where
    ci: "DynamicCache_currentInformer dc key (Get_span key w) = Some (r0, dc', w0)" and
    w': "w' = w0 \<or> (\<exists>i r'. Get_from K i key w0 = (r', w'))"
    by (auto simp: DynamicCache_Get_def split: option.splits sum.splits failure.splits prod.splits)
  from w' Get_from_frame[of K _ key w0]
  have "probes w' = probes w0 \<and> informers w' = informers w0 \<and> waits w' = waits w0"
    by (metis snd_conv)
  with ci show ?thesis by blast
qed

lemma DynamicCache_List_Some:
  assumes "DynamicCache_List K dc key w = Some (r, dc', w')"
  shows "\<exists>r0 w0. DynamicCache_currentInformer dc key (List_span key w) = Some (r0, dc', w0)
           \<and> probes w' = probes w0 \<and> informers w' = informers w0 \<and> waits w' = waits w0"
proof -
  from assms obtain r0 w0 where
    ci: "DynamicCache_currentInformer dc key (List_span key w) = Some (r0, dc', w0)" and
    w': "w' = w0 \<or> (\<exists>i r'. List_from K i key w0 = (r', w'))"
    by (auto simp: DynamicCache_List_def split: option.splits sum.splits failure.splits prod.splits)
  from w' List_from_frame[of K _ key w0]
  have "probes w' = probes w0 \<and> informers w' = informers w0 \<and> waits w' = waits w0"
    by (metis snd_conv)
  with ci show ?thesis by blast
qed

lemma DynamicCache_Watch_Some:
  assumes "DynamicCache_Watch dc key h w = Some (r, dc', w')"
  shows "\<exists>r0 w0. DynamicCache_currentInformer dc key w = Some (r0, dc', w0)
           \<and> probes w' = probes w0 \<and> informers w' = informers w0 \<and> waits w' = waits w0"
  using assms
  by (auto simp: DynamicCache_Watch_def split: option.splits sum.splits failure.splits prod.splits)

lemma span_fields:
  "probes (Get_span key w) = probes w" "informers (Get_span key w) = informers w"
  "waits (Get_span key w) = waits w"
  "probes (List_span key w) = probes w" "informers (List_span key w) = informers w"
  "waits (List_span key w) = waits w"
  by (simp_all add: Get_span_def List_span_def Annotate_def)


text \<open>A seen type: the call returns, the cache is unchanged, no wait is entered.\<close>

lemma resolve_seen:
  assumes "seenGVKs dc (Key_GroupVersionKind key) = Some b"
  shows "\<exists>r w'. DynamicCache_currentInformer dc key w = Some (r, dc, w') \<and> waits w' = waits w"
  by (simp add: DynamicCache_currentInformer_seen[OF assms] currentInformer_frame)

lemma Get_seen:
  assumes "seenGVKs dc (Key_GroupVersionKind key) = Some b"
  shows "\<exists>r w'. DynamicCache_Get K dc key w = Some (r, dc, w') \<and> waits w' = waits w"
proof -
  from resolve_seen[OF assms, of "Get_span key w"] obtain r0 w0 where
    ci: "DynamicCache_currentInformer dc key (Get_span key w) = Some (r0, dc, w0)"
    and wt: "waits w0 = waits w" by (auto simp: span_fields)
  show ?thesis
  proof (cases r0)
    case (Inl f)
    with ci wt show ?thesis by (cases f) (simp_all add: DynamicCache_Get_def)
  next
    case (Inr i)
    with ci wt Get_from_frame[of K i key w0] show ?thesis
      by (simp add: DynamicCache_Get_def split: prod.splits) (metis snd_conv)
  qed
qed

lemma List_seen:
  assumes "seenGVKs dc (Key_GroupVersionKind key) = Some b"
  shows "\<exists>r w'. DynamicCache_List K dc key w = Some (r, dc, w') \<and> waits w' = waits w"
proof -
  from resolve_seen[OF assms, of "List_span key w"] obtain r0 w0 where
    ci: "DynamicCache_currentInformer dc key (List_span key w) = Some (r0, dc, w0)"
    and wt: "waits w0 = waits w" by (auto simp: span_fields)
  show ?thesis
  proof (cases r0)
    case (Inl f)
    with ci wt show ?thesis by (cases f) (simp_all add: DynamicCache_List_def)
  next
    case (Inr i)
    with ci wt List_from_frame[of K i key w0] show ?thesis
      by (simp add: DynamicCache_List_def split: prod.splits) (metis snd_conv)
  qed
qed

lemma Watch_seen:
  assumes "seenGVKs dc (Key_GroupVersionKind key) = Some b"
  shows "\<exists>r w'. DynamicCache_Watch dc key h w = Some (r, dc, w') \<and> waits w' = waits w"
proof -
  from resolve_seen[OF assms, of w] obtain r0 w0 where
    ci: "DynamicCache_currentInformer dc key w = Some (r0, dc, w0)"
    and wt: "waits w0 = waits w" by auto
  show ?thesis
  proof (cases r0)
    case (Inl f)
    with ci wt show ?thesis by (cases f) (simp_all add: DynamicCache_Watch_def)
  next
    case (Inr i)
    with ci wt show ?thesis by (simp add: DynamicCache_Watch_def)
  qed
qed

lemma perform_mono:
  assumes "perform K req dc w = Some (dc', w')" and "seenGVKs dc gvk = Some b"
  shows "seenGVKs dc' gvk = Some b"
proof (cases req)
  case (CallList key)
  with assms(1) obtain r where "DynamicCache_List K dc key w = Some (r, dc', w')"
    by (auto simp: perform_def)
  from DynamicCache_List_Some[OF this] DynamicCache_currentInformer_mono[OF _ assms(2)]
  show ?thesis by blast
next
  case (CallGet key)
  with assms(1) obtain r where "DynamicCache_Get K dc key w = Some (r, dc', w')"
    by (auto simp: perform_def)
  from DynamicCache_Get_Some[OF this] DynamicCache_currentInformer_mono[OF _ assms(2)]
  show ?thesis by blast
next
  case (CallWatch key h)
  with assms(1) obtain r where "DynamicCache_Watch dc key h w = Some (r, dc', w')"
    by (auto simp: perform_def)
  from DynamicCache_Watch_Some[OF this] DynamicCache_currentInformer_mono[OF _ assms(2)]
  show ?thesis by blast
qed

lemma run_mono:
  "run K reqs dc w = Some (dc', w') \<Longrightarrow> seenGVKs dc gvk = Some b \<Longrightarrow> seenGVKs dc' gvk = Some b"
proof (induction reqs arbitrary: dc w)
  case Nil
  then show ?case by simp
next
  case (Cons req reqs)
  from Cons.prems(1) obtain dc1 w1 where
    p: "perform K req dc w = Some (dc1, w1)" and r: "run K reqs dc1 w1 = Some (dc', w')"
    by (auto split: option.splits)
  from perform_mono[OF p Cons.prems(2)] have "seenGVKs dc1 gvk = Some b" .
  from Cons.IH[OF r this] show ?case .
qed

lemma Key_GroupVersionKind_query:
  "Key_GroupVersionKind (key\<lparr>Namespace := ns, Name := n, Selector := sel\<rparr>) = Key_GroupVersionKind key"
  by (simp add: Key_GroupVersionKind_def split: option.splits)

section \<open>The first sync and the later calls\<close>

subsection \<open>The scenarios\<close>

lemma allow_all_granted:
  "fst (checkAccess (cluster_client allow_all) key gvr w) = None"
proof -
  have c: "KubernetesClient (cluster_client allow_all) = (Some allow_all, None)"
    by (simp add: cluster_client_def)
  have v: "\<And>verb w'. checkVerb allow_all key gvr verb w' =
             (True, snd (checkVerb allow_all key gvr verb w'))"
    by (simp add: checkVerb_def allow_all_def Let_def)
  from checkAccess_three[OF c v v v, of w] show ?thesis by simp
qed

lemma cache_resolves:
  "fst (currentInformer key (Some (cluster_client allow_all)) (Some (\<lambda>gvr. i)) stop w) = Inr i"
proof -
  have "Resource (cluster_client allow_all) (GVK_GroupKind (Key_GroupVersionKind key)) = Inr pods_gvr"
    by (simp add: cluster_client_def)
  then show ?thesis
    by (simp add: currentInformer_fst allow_all_granted)
qed

lemma cache_informers:
  "pods_gvr \<in> set (informers (snd (currentInformer key (Some (cluster_client allow_all))
                                      (Some (\<lambda>gvr. i)) stop w)))"
proof -
  have "Resource (cluster_client allow_all) (GVK_GroupKind (Key_GroupVersionKind key)) = Inr pods_gvr"
    by (simp add: cluster_client_def)
  then show ?thesis
    by (simp add: currentInformer_snd allow_all_granted checkAccess_fields ForResource_def Start_def)
qed

lemma resolve_granted:
  assumes "client dc = Some (cluster_client allow_all)"
      and "factory dc = Some (\<lambda>gvr. i)"
      and "HasSynced i k"
  shows "\<exists>dc' w'. DynamicCache_currentInformer dc key w = Some (Inr i, dc', w')
           \<and> client dc' = client dc \<and> factory dc' = factory dc
           \<and> seenGVKs dc' (Key_GroupVersionKind key) \<noteq> None
           \<and> pods_gvr \<in> set (informers w')"
proof -
  obtain r w1 where ci: "currentInformer key (client dc) (factory dc) (stopCh dc) w = (r, w1)"
    by (cases "currentInformer key (client dc) (factory dc) (stopCh dc) w")
  with cache_resolves[of key i "stopCh dc" w] assms(1,2) have r: "r = Inr i" by simp
  from ci cache_informers[of key i "stopCh dc" w] assms(1,2)
  have g: "pods_gvr \<in> set (informers w1)" by simp
  have "\<exists>k. HasSynced i k" using assms(3) by blast
  then show ?thesis using g
    by (cases "seenGVKs dc (Key_GroupVersionKind key)")
       (auto simp: DynamicCache_currentInformer_eq ci r)
qed

text \<open>
  C2, what the code does where the claim fails. For a type not yet seen, the call waits
  on \<open>context.Background().Done()\<close>, not on \<open>dc.stopCh\<close>: it returns (with the type
  marked seen) exactly when the informer syncs at some poll, and never returns otherwise,
  whatever the shutdown signal does. The \<open>shutting down\<close> error is never produced.
\<close>

theorem sync_wait_ignores_shutdown:
  assumes "currentInformer key (client dc) (factory dc) (stopCh dc) w = (Inr informer, w')"
      and "seenGVKs dc (Key_GroupVersionKind key) = None"
  shows "DynamicCache_currentInformer dc key w =
           (if \<exists>k. HasSynced informer k
            then Some (Inr informer,
                       dc\<lparr>seenGVKs := (seenGVKs dc)(Key_GroupVersionKind key \<mapsto> True)\<rparr>,
                       w'\<lparr>waits := waits w' @ [resource informer]\<rparr>)
            else None)"
  by (simp add: DynamicCache_currentInformer_eq assms)

text \<open>
  C2, at the failing input: the shutdown signal is closed from the start, the informer
  never syncs, and the call neither fails nor returns.
\<close>

theorem sync_wait_ignores_shutdown_witness:
  "stopCh (cache allow_all (pods_informer never present) always) 0
   \<and> DynamicCache_currentInformer (cache allow_all (pods_informer never present) always)
       pods_key empty_world = None"
proof -
  let ?dc = "cache allow_all (pods_informer never present) always"
  let ?r = "currentInformer pods_key (client ?dc) (factory ?dc) (stopCh ?dc) empty_world"
  have "fst ?r = Inr (pods_informer never present)"
    using cache_resolves[of pods_key "pods_informer never present" always empty_world]
    by (simp add: cache_def)
  then have r: "?r = (Inr (pods_informer never present), snd ?r)"
    by (cases ?r) simp
  have unseen: "seenGVKs ?dc (Key_GroupVersionKind pods_key) = None"
    by (simp add: cache_def)
  from sync_wait_ignores_shutdown[OF r unseen]
  show ?thesis
    by (simp add: pods_informer_def never_def cache_def always_def)
qed











section \<open>The fetch of Get\<close>

lemma Retry_Get_not_found:
  assumes "lister_Get informer (lister_scope key) (reads (var_world v)) (Name key) = Inl e"
      and "IsNotFound e" and "1 < n"
  shows "Retry se n sl (Get_attempt informer key) v =
           (case Retry se (n - 1) sl (Get_attempt informer key)
                   (v\<lparr>var_object := None, var_err := Some e,
                      var_world := (var_world v)\<lparr>reads := Suc (reads (var_world v))\<rparr>\<rparr>) of
              (r, s, slept) \<Rightarrow> (r, s, sl # slept))"
  by (rule Retry_again[where fn = "Get_attempt informer key" and s = v,
        OF Get_attempt_not_found[OF assms(1,2)] IsNotFound_not_stopped[OF assms(2)] assms(3)])


lemma Retry_Get_found:
  assumes "lister_Get informer (lister_scope key) (reads (var_world v)) (Name key) = Inr obj"
  shows "Retry se n sl (Get_attempt informer key) v =
           (None, v\<lparr>var_object := Some obj, var_err := None,
                    var_world := (var_world v)\<lparr>reads := Suc (reads (var_world v))\<rparr>\<rparr>, [])"
  by (rule Retry_ok[where fn = "Get_attempt informer key" and s = v, OF Get_attempt_found[OF assms]])

text \<open>An error other than not-found, in the two readings of \<open>retry.Stop\<close>.\<close>

lemma Retry_Get_other:
  assumes "lister_Get informer (lister_scope key) (reads (var_world v)) (Name key) = Inl e"
      and "\<not> IsNotFound e"
  shows "Retry Stop_ends_retry n sl (Get_attempt informer key) v =
           (Some (ErrorsWrap e ''lister Get''),
            v\<lparr>var_object := None, var_err := Some e,
              var_world := (var_world v)\<lparr>reads := Suc (reads (var_world v))\<rparr>,
              var_retryCount := var_retryCount v + 1\<rparr>, [])"
  by (rule Retry_stop[where fn = "Get_attempt informer key" and s = v,
        OF Get_attempt_other[OF assms]]) simp

lemma Retry_Get_other_goes_on:
  assumes "lister_Get informer (lister_scope key) (reads (var_world v)) (Name key) = Inl e"
      and "\<not> IsNotFound e" and "1 < n"
  shows "Retry Stop_goes_on n sl (Get_attempt informer key) v =
           (case Retry Stop_goes_on (n - 1) sl (Get_attempt informer key)
                   (v\<lparr>var_object := None, var_err := Some e,
                      var_world := (var_world v)\<lparr>reads := Suc (reads (var_world v))\<rparr>,
                      var_retryCount := var_retryCount v + 1\<rparr>) of
              (r, s, slept) \<Rightarrow> (r, s, sl # slept))"
  by (rule Retry_again[where fn = "Get_attempt informer key" and s = v,
        OF Get_attempt_other[OF assms(1,2)] _ assms(3)]) simp

lemma Retry_Get_other_goes_on_last:
  assumes "lister_Get informer (lister_scope key) (reads (var_world v)) (Name key) = Inl e"
      and "\<not> IsNotFound e"
  shows "Retry Stop_goes_on 1 sl (Get_attempt informer key) v =
           (Some (RetryStop (ErrorsWrap e ''lister Get'')),
            v\<lparr>var_object := None, var_err := Some e,
              var_world := (var_world v)\<lparr>reads := Suc (reads (var_world v))\<rparr>,
              var_retryCount := var_retryCount v + 1\<rparr>, [])"
  by (rule Retry_last[where fn = "Get_attempt informer key" and s = v,
        OF Get_attempt_other[OF assms(1,2)]]) simp_all

text \<open>The outcomes of the fetch, after i reads that found nothing.\<close>

lemma less_3_cases:
  "i < (3::nat) \<Longrightarrow> i = 0 \<or> i = 1 \<or> i = 2"
  by arith

lemma Get_from_found:
  fixes informer :: "'o GenericInformer" and w :: "'h World"
  assumes "i < 3"
      and "\<forall>j<i. \<exists>e. lister_Get informer (lister_scope key) (reads w + j) (Name key) = Inl e \<and> IsNotFound e"
      and "lister_Get informer (lister_scope key) (reads w + i) (Name key) = Inr obj"
  shows "Get_from K informer key w =
           ((case verify_selector K key (Some obj) of
               Some e \<Rightarrow> Inl (Failed e)
             | None \<Rightarrow>
                (case to_unstructured K (Some obj) of
                   Inl f \<Rightarrow> Inl f
                 | Inr u \<Rightarrow> Inr (Some u))),
            w\<lparr>reads := reads w + Suc i, sleeps := sleeps w @ replicate i Second\<rparr>)"
proof -
  let ?v0 = "\<lparr>var_object = None :: 'o option, var_err = None, var_retryCount = 0, var_world = w\<rparr>"
  let ?se = "retry_Stop K"
  from less_3_cases[OF assms(1)] consider "i = 0" | "i = 1" | "i = 2" by blast
  then show ?thesis
  proof cases
    case 1
    with assms(3) have "lister_Get informer (lister_scope key) (reads (var_world ?v0)) (Name key) = Inr obj"
      by simp
    from Retry_Get_found[where se = ?se and n = 3 and sl = Second, OF this] 1 show ?thesis
      by (simp add: Get_from_def Let_def split: option.splits sum.splits)
  next
    case 2
    from assms(2)[rule_format, of 0] 2 obtain e0 where
      "lister_Get informer (lister_scope key) (reads w) (Name key) = Inl e0" and n0: "IsNotFound e0"
      by auto
    then have r0: "lister_Get informer (lister_scope key) (reads (var_world ?v0)) (Name key) = Inl e0"
      by simp
    let ?v1 = "?v0\<lparr>var_object := None, var_err := Some e0,
                   var_world := (var_world ?v0)\<lparr>reads := Suc (reads (var_world ?v0))\<rparr>\<rparr>"
    from assms(3) 2 have "lister_Get informer (lister_scope key) (reads (var_world ?v1)) (Name key) = Inr obj"
      by simp
    from Retry_Get_found[where se = ?se and n = 2 and sl = Second, OF this]
      Retry_Get_not_found[where se = ?se and n = 3 and sl = Second, OF r0 n0] 2
    show ?thesis
      by (simp add: Get_from_def Let_def split: option.splits sum.splits)
  next
    case 3
    from assms(2)[rule_format, of 0] 3 obtain e0 where
      "lister_Get informer (lister_scope key) (reads w) (Name key) = Inl e0" and n0: "IsNotFound e0"
      by auto
    then have r0: "lister_Get informer (lister_scope key) (reads (var_world ?v0)) (Name key) = Inl e0"
      by simp
    let ?v1 = "?v0\<lparr>var_object := None, var_err := Some e0,
                   var_world := (var_world ?v0)\<lparr>reads := Suc (reads (var_world ?v0))\<rparr>\<rparr>"
    from assms(2)[rule_format, of 1] 3
    have "\<exists>e. lister_Get informer (lister_scope key) (reads w + 1) (Name key) = Inl e \<and> IsNotFound e"
      by simp
    then obtain e1 where
      "lister_Get informer (lister_scope key) (Suc (reads w)) (Name key) = Inl e1" and n1: "IsNotFound e1"
      by auto
    then have r1: "lister_Get informer (lister_scope key) (reads (var_world ?v1)) (Name key) = Inl e1"
      by simp
    let ?v2 = "?v1\<lparr>var_object := None, var_err := Some e1,
                   var_world := (var_world ?v1)\<lparr>reads := Suc (reads (var_world ?v1))\<rparr>\<rparr>"
    from assms(3) 3 have "lister_Get informer (lister_scope key) (reads (var_world ?v2)) (Name key) = Inr obj"
      by (simp add: numeral_2_eq_2)
    from Retry_Get_found[where se = ?se and n = 1 and sl = Second, OF this]
      Retry_Get_not_found[where se = ?se and n = 2 and sl = Second, OF r1 n1]
      Retry_Get_not_found[where se = ?se and n = 3 and sl = Second, OF r0 n0] 3
    show ?thesis
      by (simp add: Get_from_def Let_def numeral_2_eq_2 split: option.splits sum.splits)
  qed
qed

lemma Get_from_other:
  fixes informer :: "'o GenericInformer" and w :: "'h World"
  assumes "retry_Stop K = Stop_ends_retry"
      and "i < 3"
      and "\<forall>j<i. \<exists>e. lister_Get informer (lister_scope key) (reads w + j) (Name key) = Inl e \<and> IsNotFound e"
      and "lister_Get informer (lister_scope key) (reads w + i) (Name key) = Inl e"
      and "\<not> IsNotFound e"
  shows "Get_from K informer key w =
           (Inl (Failed e),
            Annotate [Int64Attribute ''retryCount'' 1] ''get retried''
              (w\<lparr>reads := reads w + Suc i, sleeps := sleeps w @ replicate i Second\<rparr>))"
proof -
  let ?v0 = "\<lparr>var_object = None :: 'o option, var_err = None, var_retryCount = 0, var_world = w\<rparr>"
  let ?se = "Stop_ends_retry"
  from less_3_cases[OF assms(2)] consider "i = 0" | "i = 1" | "i = 2" by blast
  then show ?thesis
  proof cases
    case 1
    with assms(4) have "lister_Get informer (lister_scope key) (reads (var_world ?v0)) (Name key) = Inl e"
      by simp
    from Retry_Get_other[where n = 3 and sl = Second, OF this assms(5)] 1 show ?thesis
      by (simp add: Get_from_def Let_def assms(1))
  next
    case 2
    from assms(3)[rule_format, of 0] 2 obtain e0 where
      "lister_Get informer (lister_scope key) (reads w) (Name key) = Inl e0" and n0: "IsNotFound e0"
      by auto
    then have r0: "lister_Get informer (lister_scope key) (reads (var_world ?v0)) (Name key) = Inl e0"
      by simp
    let ?v1 = "?v0\<lparr>var_object := None, var_err := Some e0,
                   var_world := (var_world ?v0)\<lparr>reads := Suc (reads (var_world ?v0))\<rparr>\<rparr>"
    from assms(4) 2 have "lister_Get informer (lister_scope key) (reads (var_world ?v1)) (Name key) = Inl e"
      by simp
    from Retry_Get_other[where n = 2 and sl = Second, OF this assms(5)]
      Retry_Get_not_found[where se = ?se and n = 3 and sl = Second, OF r0 n0] 2
    show ?thesis
      by (simp add: Get_from_def Let_def assms(1))
  next
    case 3
    from assms(3)[rule_format, of 0] 3 obtain e0 where
      "lister_Get informer (lister_scope key) (reads w) (Name key) = Inl e0" and n0: "IsNotFound e0"
      by auto
    then have r0: "lister_Get informer (lister_scope key) (reads (var_world ?v0)) (Name key) = Inl e0"
      by simp
    let ?v1 = "?v0\<lparr>var_object := None, var_err := Some e0,
                   var_world := (var_world ?v0)\<lparr>reads := Suc (reads (var_world ?v0))\<rparr>\<rparr>"
    from assms(3)[rule_format, of 1] 3
    have "\<exists>e. lister_Get informer (lister_scope key) (reads w + 1) (Name key) = Inl e \<and> IsNotFound e"
      by simp
    then obtain e1 where
      "lister_Get informer (lister_scope key) (Suc (reads w)) (Name key) = Inl e1" and n1: "IsNotFound e1"
      by auto
    then have r1: "lister_Get informer (lister_scope key) (reads (var_world ?v1)) (Name key) = Inl e1"
      by simp
    let ?v2 = "?v1\<lparr>var_object := None, var_err := Some e1,
                   var_world := (var_world ?v1)\<lparr>reads := Suc (reads (var_world ?v1))\<rparr>\<rparr>"
    from assms(4) 3 have "lister_Get informer (lister_scope key) (reads (var_world ?v2)) (Name key) = Inl e"
      by (simp add: numeral_2_eq_2)
    from Retry_Get_other[where n = 1 and sl = Second, OF this assms(5)]
      Retry_Get_not_found[where se = ?se and n = 2 and sl = Second, OF r1 n1]
      Retry_Get_not_found[where se = ?se and n = 3 and sl = Second, OF r0 n0] 3
    show ?thesis
      by (simp add: Get_from_def Let_def numeral_2_eq_2 assms(1))
  qed
qed


text \<open>When the helper goes on after a \<open>Stop\<close> error: reads that fail with errors other
  than not-found, then the object, or three such reads.\<close>

lemma Get_from_other_then_found:
  fixes informer :: "'o GenericInformer" and w :: "'h World"
  assumes "retry_Stop K = Stop_goes_on"
      and "i < 3"
      and "\<forall>j<i. \<exists>e. lister_Get informer (lister_scope key) (reads w + j) (Name key) = Inl e
                      \<and> \<not> IsNotFound e"
      and "lister_Get informer (lister_scope key) (reads w + i) (Name key) = Inr obj"
  shows "Get_from K informer key w =
           ((case verify_selector K key (Some obj) of
               Some e \<Rightarrow> Inl (Failed e)
             | None \<Rightarrow>
                (case to_unstructured K (Some obj) of
                   Inl f \<Rightarrow> Inl f
                 | Inr u \<Rightarrow> Inr (Some u))),
            (if 0 < i
             then Annotate [Int64Attribute ''retryCount'' (int i)] ''get retried''
                    (w\<lparr>reads := reads w + Suc i, sleeps := sleeps w @ replicate i Second\<rparr>)
             else w\<lparr>reads := reads w + Suc i, sleeps := sleeps w @ replicate i Second\<rparr>))"
proof -
  let ?v0 = "\<lparr>var_object = None :: 'o option, var_err = None, var_retryCount = 0, var_world = w\<rparr>"
  let ?se = "Stop_goes_on"
  from less_3_cases[OF assms(2)] consider "i = 0" | "i = 1" | "i = 2" by blast
  then show ?thesis
  proof cases
    case 1
    with assms(4) have "lister_Get informer (lister_scope key) (reads (var_world ?v0)) (Name key) = Inr obj"
      by simp
    from Retry_Get_found[where se = ?se and n = 3 and sl = Second, OF this] 1 show ?thesis
      by (simp add: Get_from_def Let_def assms(1) split: option.splits sum.splits)
  next
    case 2
    from assms(3)[rule_format, of 0] 2 obtain e0 where
      "lister_Get informer (lister_scope key) (reads w) (Name key) = Inl e0" and n0: "\<not> IsNotFound e0"
      by auto
    then have r0: "lister_Get informer (lister_scope key) (reads (var_world ?v0)) (Name key) = Inl e0"
      by simp
    let ?v1 = "?v0\<lparr>var_object := None, var_err := Some e0,
                   var_world := (var_world ?v0)\<lparr>reads := Suc (reads (var_world ?v0))\<rparr>,
                   var_retryCount := var_retryCount ?v0 + 1\<rparr>"
    from assms(4) 2 have "lister_Get informer (lister_scope key) (reads (var_world ?v1)) (Name key) = Inr obj"
      by simp
    from Retry_Get_found[where se = ?se and n = 2 and sl = Second, OF this]
      Retry_Get_other_goes_on[where n = 3 and sl = Second, OF r0 n0] 2
    show ?thesis
      by (simp add: Get_from_def Let_def assms(1) split: option.splits sum.splits)
  next
    case 3
    from assms(3)[rule_format, of 0] 3 obtain e0 where
      "lister_Get informer (lister_scope key) (reads w) (Name key) = Inl e0" and n0: "\<not> IsNotFound e0"
      by auto
    then have r0: "lister_Get informer (lister_scope key) (reads (var_world ?v0)) (Name key) = Inl e0"
      by simp
    let ?v1 = "?v0\<lparr>var_object := None, var_err := Some e0,
                   var_world := (var_world ?v0)\<lparr>reads := Suc (reads (var_world ?v0))\<rparr>,
                   var_retryCount := var_retryCount ?v0 + 1\<rparr>"
    from assms(3)[rule_format, of 1] 3
    have "\<exists>e. lister_Get informer (lister_scope key) (reads w + 1) (Name key) = Inl e \<and> \<not> IsNotFound e"
      by simp
    then obtain e1 where
      "lister_Get informer (lister_scope key) (Suc (reads w)) (Name key) = Inl e1" and n1: "\<not> IsNotFound e1"
      by auto
    then have r1: "lister_Get informer (lister_scope key) (reads (var_world ?v1)) (Name key) = Inl e1"
      by simp
    let ?v2 = "?v1\<lparr>var_object := None, var_err := Some e1,
                   var_world := (var_world ?v1)\<lparr>reads := Suc (reads (var_world ?v1))\<rparr>,
                   var_retryCount := var_retryCount ?v1 + 1\<rparr>"
    from assms(4) 3 have "lister_Get informer (lister_scope key) (reads (var_world ?v2)) (Name key) = Inr obj"
      by (simp add: numeral_2_eq_2)
    from Retry_Get_found[where se = ?se and n = 1 and sl = Second, OF this]
      Retry_Get_other_goes_on[where n = 2 and sl = Second, OF r1 n1]
      Retry_Get_other_goes_on[where n = 3 and sl = Second, OF r0 n0] 3
    show ?thesis
      by (simp add: Get_from_def Let_def numeral_2_eq_2 assms(1) split: option.splits sum.splits)
  qed
qed

lemma Get_from_other_exhausted:
  fixes informer :: "'o GenericInformer" and w :: "'h World"
  assumes "retry_Stop K = Stop_goes_on"
      and "\<forall>j<3. \<exists>e. lister_Get informer (lister_scope key) (reads w + j) (Name key) = Inl e
                      \<and> \<not> IsNotFound e"
  shows "\<exists>e. lister_Get informer (lister_scope key) (reads w + 2) (Name key) = Inl e \<and> \<not> IsNotFound e
           \<and> Get_from K informer key w =
               (Inl (Failed e),
                Annotate [Int64Attribute ''retryCount'' 3] ''get retried''
                  (w\<lparr>reads := reads w + 3, sleeps := sleeps w @ [Second, Second]\<rparr>))"
proof -
  let ?v0 = "\<lparr>var_object = None :: 'o option, var_err = None, var_retryCount = 0, var_world = w\<rparr>"
  from assms(2)[rule_format, of 0] obtain e0 where
    "lister_Get informer (lister_scope key) (reads w) (Name key) = Inl e0" and n0: "\<not> IsNotFound e0"
    by auto
  then have r0: "lister_Get informer (lister_scope key) (reads (var_world ?v0)) (Name key) = Inl e0"
    by simp
  let ?v1 = "?v0\<lparr>var_object := None, var_err := Some e0,
                 var_world := (var_world ?v0)\<lparr>reads := Suc (reads (var_world ?v0))\<rparr>,
                 var_retryCount := var_retryCount ?v0 + 1\<rparr>"
  from assms(2)[rule_format, of 1]
  have "\<exists>e. lister_Get informer (lister_scope key) (reads w + 1) (Name key) = Inl e \<and> \<not> IsNotFound e"
    by simp
  then obtain e1 where
    "lister_Get informer (lister_scope key) (Suc (reads w)) (Name key) = Inl e1" and n1: "\<not> IsNotFound e1"
    by auto
  then have r1: "lister_Get informer (lister_scope key) (reads (var_world ?v1)) (Name key) = Inl e1"
    by simp
  let ?v2 = "?v1\<lparr>var_object := None, var_err := Some e1,
                 var_world := (var_world ?v1)\<lparr>reads := Suc (reads (var_world ?v1))\<rparr>,
                 var_retryCount := var_retryCount ?v1 + 1\<rparr>"
  from assms(2)[rule_format, of 2] obtain e2 where
    l2: "lister_Get informer (lister_scope key) (reads w + 2) (Name key) = Inl e2" and n2: "\<not> IsNotFound e2"
    by auto
  then have r2: "lister_Get informer (lister_scope key) (reads (var_world ?v2)) (Name key) = Inl e2"
    by (simp add: numeral_2_eq_2)
  from Retry_Get_other_goes_on_last[where sl = Second, OF r2 n2]
    Retry_Get_other_goes_on[where n = 2 and sl = Second, OF r1 n1]
    Retry_Get_other_goes_on[where n = 3 and sl = Second, OF r0 n0]
  have "Get_from K informer key w =
          (Inl (Failed e2),
           Annotate [Int64Attribute ''retryCount'' 3] ''get retried''
             (w\<lparr>reads := reads w + 3, sleeps := sleeps w @ [Second, Second]\<rparr>))"
    by (simp add: Get_from_def Let_def numeral_2_eq_2 numeral_3_eq_3 assms(1))
  with l2 n2 show ?thesis by blast
qed






lemma Get_resolved:
  assumes "DynamicCache_currentInformer dc key (Get_span key w) = Some (Inr informer, dc', w1)"
  shows "DynamicCache_Get K dc key w =
           Some (fst (Get_from K informer key w1), dc', snd (Get_from K informer key w1))"
  by (simp add: DynamicCache_Get_def assms split: prod.splits)

lemma resolve_frame:
  assumes "DynamicCache_currentInformer dc key w = Some (r, dc', w')"
  shows "reads w' = reads w \<and> sleeps w' = sleeps w \<and> annotations w' = annotations w"
  using assms currentInformer_frame[of key "client dc" "factory dc" "stopCh dc" w]
  by (auto simp: DynamicCache_currentInformer_eq split: prod.splits sum.splits option.splits if_splits)


lemma pods_fixture:
  "client (cache a informer stop) = Some (cluster_client a)"
  "factory (cache a informer stop) = Some (\<lambda>gvr. informer)"
  "HasSynced (pods_informer always script) 0"
  "lister_Get (pods_informer synced script) scope n name = script n"
  by (simp_all add: cache_def pods_informer_def always_def)


lemma resolve_on_pods:
  "\<exists>dc' w1. DynamicCache_currentInformer (cache allow_all (pods_informer always script) stop) key w
               = Some (Inr (pods_informer always script), dc', w1)"
  using resolve_granted[OF pods_fixture(1,2,3)] by blast

lemma resolve_pods_Get:
  "\<exists>dc' w1. DynamicCache_currentInformer (cache allow_all (pods_informer always script) never)
                pods_key (Get_span pods_key empty_world)
               = Some (Inr (pods_informer always script), dc', w1)
           \<and> reads w1 = 0 \<and> sleeps w1 = []
           \<and> annotations w1 = annotations (Get_span pods_key empty_world)"
proof -
  from resolve_on_pods[of script never pods_key "Get_span pods_key empty_world"]
  obtain dc' w1 where
    ci: "DynamicCache_currentInformer (cache allow_all (pods_informer always script) never)
           pods_key (Get_span pods_key empty_world) = Some (Inr (pods_informer always script), dc', w1)"
    by blast
  from resolve_frame[OF ci] have "reads w1 = 0" "sleeps w1 = []"
    "annotations w1 = annotations (Get_span pods_key empty_world)"
    by (simp_all add: Get_span_def Annotate_def empty_world_def)
  with ci show ?thesis by blast
qed





text \<open>
  C5, as the code has it (\<open>retry.Retry\<close> modelled from the spec, the effect of
  \<open>retry.Stop\<close> a parameter). For an error other than not-found the closure of \<open>Get\<close>
  builds \<open>errors.Wrap(err, "lister Get")\<close> (line 279), but when the retry has failed
  \<open>Get\<close> returns the variable \<open>err\<close>, the error of the last lister call, and not
  \<open>retryErr\<close> (line 294). So, once the informer is resolved and whatever \<open>retry.Stop\<close>
  does, a Get whose three reads would all fail with errors other than not-found returns
  to the caller one of these errors exactly as the lister gave it, with nothing wrapped
  around it. If the helper goes on after a \<open>Stop\<close> error, it is the error of the third
  read and the span is annotated with retryCount 3, and a Get whose first two reads fail
  so and whose third read finds the object returns the object (for a key without
  selector, when the conversion succeeds) and annotates retryCount 2. If the helper ends
  the retry on a \<open>Stop\<close> error, it is the error of the first read, and the span is
  annotated with retryCount 1.
\<close>

theorem Get_surfaces_bare_lister_error:
  assumes "DynamicCache_currentInformer dc key (Get_span key w) = Some (Inr informer, dc', w1)"
  shows "((\<forall>j<3.
        \<exists>e'. lister_Get informer (lister_scope key) (reads w1 + j) (Name key) = Inl e' \<and> \<not> IsNotFound e') \<longrightarrow>
            (\<exists>j e w'. j < 3 \<and> lister_Get informer (lister_scope key) (reads w1 + j) (Name key) = Inl e
                 \<and> DynamicCache_Get K dc key w = Some (Inl (Failed e), dc', w')))
       \<and> (retry_Stop K = Stop_goes_on \<longrightarrow>
            ((\<forall>j<3.
                  \<exists>e'. lister_Get informer (lister_scope key) (reads w1 + j) (Name key) = Inl e' \<and> \<not> IsNotFound e') \<longrightarrow>
            (\<exists>e w'. lister_Get informer (lister_scope key) (reads w1 + 2) (Name key) = Inl e
                 \<and> DynamicCache_Get K dc key w = Some (Inl (Failed e), dc', w')
                 \<and> annotations w' = annotations w1 @ [([Int64Attribute ''retryCount'' 3], ''get retried'')]))
          \<and> (\<forall>obj u. (\<forall>j<2.
                \<exists>e'. lister_Get informer (lister_scope key) (reads w1 + j) (Name key) = Inl e' \<and> \<not> IsNotFound e')
            \<and> lister_Get informer (lister_scope key) (reads w1 + 2) (Name key) = Inr obj
            \<and> Selector key = None \<and> ToUnstructured K (Some obj) = Inr u \<longrightarrow>
            (\<exists>w'. DynamicCache_Get K dc key w = Some (Inr (Some u), dc', w')
                 \<and> annotations w' = annotations w1 @ [([Int64Attribute ''retryCount'' 2], ''get retried'')])))
       \<and> (retry_Stop K = Stop_ends_retry \<longrightarrow>
            (\<forall>e. lister_Get informer (lister_scope key) (reads w1 + 0) (Name key) = Inl e \<and> \<not> IsNotFound e \<longrightarrow>
            (\<exists>w'. DynamicCache_Get K dc key w = Some (Inl (Failed e), dc', w')
                 \<and> annotations w' = annotations w1 @ [([Int64Attribute ''retryCount'' 1], ''get retried'')])))"
proof (intro conjI allI impI)
  assume a: "\<forall>j<3.
        \<exists>e'. lister_Get informer (lister_scope key) (reads w1 + j) (Name key) = Inl e' \<and> \<not> IsNotFound e'"
  show "(\<exists>j e w'. j < 3 \<and> lister_Get informer (lister_scope key) (reads w1 + j) (Name key) = Inl e
                 \<and> DynamicCache_Get K dc key w = Some (Inl (Failed e), dc', w'))"
  proof (cases "retry_Stop K")
    case Stop_goes_on
    from Get_from_other_exhausted[OF Stop_goes_on a] obtain e where
      l: "lister_Get informer (lister_scope key) (reads w1 + 2) (Name key) = Inl e" and
      GF: "Get_from K informer key w1 =
               (Inl (Failed e),
                Annotate [Int64Attribute ''retryCount'' 3] ''get retried''
                  (w1\<lparr>reads := reads w1 + 3, sleeps := sleeps w1 @ [Second, Second]\<rparr>))"
      by blast
    from l have "(2::nat) < 3 \<and> lister_Get informer (lister_scope key) (reads w1 + 2) (Name key) = Inl e
        \<and> DynamicCache_Get K dc key w = Some (Inl (Failed e), dc', snd (Get_from K informer key w1))"
      by (simp add: Get_resolved[OF assms] GF)
    then show ?thesis by blast
  next
    case Stop_ends_retry
    from a[rule_format, of 0] obtain e where
      l: "lister_Get informer (lister_scope key) (reads w1 + 0) (Name key) = Inl e" and n: "\<not> IsNotFound e"
      by auto
    have "\<forall>j<0. \<exists>e. lister_Get informer (lister_scope key) (reads w1 + j) (Name key) = Inl e
                      \<and> IsNotFound e"
      by simp
    from Get_from_other[OF Stop_ends_retry _ this l n]
    have GF: "Get_from K informer key w1 =
           (Inl (Failed e),
            Annotate [Int64Attribute ''retryCount'' 1] ''get retried''
              (w1\<lparr>reads := reads w1 + Suc 0, sleeps := sleeps w1 @ replicate 0 Second\<rparr>))"
      by simp
    from l have "(0::nat) < 3 \<and> lister_Get informer (lister_scope key) (reads w1 + 0) (Name key) = Inl e
        \<and> DynamicCache_Get K dc key w = Some (Inl (Failed e), dc', snd (Get_from K informer key w1))"
      by (simp add: Get_resolved[OF assms] GF)
    then show ?thesis by blast
  qed
next
  assume g: "retry_Stop K = Stop_goes_on"
  assume a: "\<forall>j<3.
        \<exists>e'. lister_Get informer (lister_scope key) (reads w1 + j) (Name key) = Inl e' \<and> \<not> IsNotFound e'"
  from Get_from_other_exhausted[OF g a] obtain e where
    l: "lister_Get informer (lister_scope key) (reads w1 + 2) (Name key) = Inl e" and
    GF: "Get_from K informer key w1 =
             (Inl (Failed e),
              Annotate [Int64Attribute ''retryCount'' 3] ''get retried''
                (w1\<lparr>reads := reads w1 + 3, sleeps := sleeps w1 @ [Second, Second]\<rparr>))"
    by blast
  from l have "lister_Get informer (lister_scope key) (reads w1 + 2) (Name key) = Inl e
        \<and> DynamicCache_Get K dc key w = Some (Inl (Failed e), dc', snd (Get_from K informer key w1))
        \<and> annotations (snd (Get_from K informer key w1)) =
            annotations w1 @ [([Int64Attribute ''retryCount'' 3], ''get retried'')]"
    by (simp add: Get_resolved[OF assms] GF Annotate_def)
  then show "(\<exists>e w'. lister_Get informer (lister_scope key) (reads w1 + 2) (Name key) = Inl e
                 \<and> DynamicCache_Get K dc key w = Some (Inl (Failed e), dc', w')
                 \<and> annotations w' = annotations w1 @ [([Int64Attribute ''retryCount'' 3], ''get retried'')])"
    by blast
next
  fix obj u
  assume g: "retry_Stop K = Stop_goes_on"
  assume "(\<forall>j<2.
        \<exists>e'. lister_Get informer (lister_scope key) (reads w1 + j) (Name key) = Inl e' \<and> \<not> IsNotFound e')
            \<and> lister_Get informer (lister_scope key) (reads w1 + 2) (Name key) = Inr obj
            \<and> Selector key = None \<and> ToUnstructured K (Some obj) = Inr u"
  then have a2: "\<forall>j<2.
        \<exists>e'. lister_Get informer (lister_scope key) (reads w1 + j) (Name key) = Inl e' \<and> \<not> IsNotFound e'"
    and a3: "lister_Get informer (lister_scope key) (reads w1 + 2) (Name key) = Inr obj"
    and a4: "Selector key = None" and a5: "ToUnstructured K (Some obj) = Inr u"
    by simp_all
  have a1: "2 < (3::nat)" by simp
  from Get_from_other_then_found[OF g a1 a2 a3]
  show "(\<exists>w'. DynamicCache_Get K dc key w = Some (Inr (Some u), dc', w')
                 \<and> annotations w' = annotations w1 @ [([Int64Attribute ''retryCount'' 2], ''get retried'')])"
    by (simp add: Get_resolved[OF assms] verify_selector_def a4 to_unstructured_def a5 Annotate_def)
next
  fix e
  assume s: "retry_Stop K = Stop_ends_retry"
  assume "lister_Get informer (lister_scope key) (reads w1 + 0) (Name key) = Inl e \<and> \<not> IsNotFound e"
  then have l: "lister_Get informer (lister_scope key) (reads w1 + 0) (Name key) = Inl e" and n: "\<not> IsNotFound e"
    by simp_all
  have "\<forall>j<0. \<exists>e. lister_Get informer (lister_scope key) (reads w1 + j) (Name key) = Inl e
                    \<and> IsNotFound e"
    by simp
  from Get_from_other[OF s _ this l n]
  have GF: "Get_from K informer key w1 =
         (Inl (Failed e),
          Annotate [Int64Attribute ''retryCount'' 1] ''get retried''
            (w1\<lparr>reads := reads w1 + Suc 0, sleeps := sleeps w1 @ replicate 0 Second\<rparr>))"
    by simp
  show "(\<exists>w'. DynamicCache_Get K dc key w = Some (Inl (Failed e), dc', w')
                 \<and> annotations w' = annotations w1 @ [([Int64Attribute ''retryCount'' 1], ''get retried'')])"
    by (simp add: Get_resolved[OF assms] GF Annotate_def)
qed

text \<open>
  C5, witness: every read of the lister times out. The Get returns the timeout of the
  lister as it is, a status error with nothing wrapped around it, after three attempts
  when the helper goes on after a \<open>Stop\<close> error and after one when it ends the retry.
  And when only the first two reads time out and the helper goes on, the Get returns the
  pod and annotates retryCount 2.
\<close>

theorem Get_surfaces_bare_lister_error_witness:
  "(\<exists>dc' w'.
      DynamicCache_Get (library\<lparr>retry_Stop := Stop_goes_on\<rparr>)
        (cache allow_all (pods_informer always times_out) never)
        pods_key empty_world = Some (Inl (Failed timeout), dc', w')
      \<and> annotations w' =
          annotations (Get_span pods_key empty_world)
          @ [([Int64Attribute ''retryCount'' 3], ''get retried'')])
   \<and> (\<exists>dc' w'.
      DynamicCache_Get (library\<lparr>retry_Stop := Stop_ends_retry\<rparr>)
        (cache allow_all (pods_informer always times_out) never)
        pods_key empty_world = Some (Inl (Failed timeout), dc', w')
      \<and> annotations w' =
          annotations (Get_span pods_key empty_world)
          @ [([Int64Attribute ''retryCount'' 1], ''get retried'')])
   \<and> (\<exists>dc' w'.
      DynamicCache_Get (library\<lparr>retry_Stop := Stop_goes_on\<rparr>)
        (cache allow_all (pods_informer always times_out_twice) never)
        pods_key empty_world = Some (Inr (Some web_pod), dc', w')
      \<and> annotations w' =
          annotations (Get_span pods_key empty_world)
          @ [([Int64Attribute ''retryCount'' 2], ''get retried'')])
   \<and> (\<exists>dc' w'.
      DynamicCache_Get library (cache allow_all (pods_informer always times_out) never)
        pods_key empty_world = Some (Inl (Failed timeout), dc', w'))
   \<and> times_out 0 = Inl timeout \<and> times_out 1 = Inl timeout \<and> times_out 2 = Inl timeout
   \<and> times_out_twice 0 = Inl timeout \<and> times_out_twice 1 = Inl timeout
   \<and> times_out_twice 2 = Inr web_pod
   \<and> timeout = StatusError StatusReasonTimeout ''request timed out''
   \<and> \<not> IsNotFound timeout"
proof -
  let ?gk = "library\<lparr>retry_Stop := Stop_goes_on\<rparr>"
  let ?sk = "library\<lparr>retry_Stop := Stop_ends_retry\<rparr>"
  let ?inf = "pods_informer always times_out"
  let ?dc = "cache allow_all ?inf never"
  let ?inf2 = "pods_informer always times_out_twice"
  let ?dc2 = "cache allow_all ?inf2 never"
  have nf: "\<not> IsNotFound timeout" by (simp add: timeout_def)
  have g: "retry_Stop ?gk = Stop_goes_on" by simp
  have s: "retry_Stop ?sk = Stop_ends_retry" by simp
  from resolve_pods_Get[of times_out]
  obtain dc' w1 where
    ci: "DynamicCache_currentInformer ?dc pods_key (Get_span pods_key empty_world) = Some (Inr ?inf, dc', w1)"
    and r0: "reads w1 = 0"
    and a0: "annotations w1 = annotations (Get_span pods_key empty_world)"
    by blast
  have h3: "\<forall>j<3. \<exists>e'. lister_Get ?inf (lister_scope pods_key) (reads w1 + j) (Name pods_key) = Inl e'
                          \<and> \<not> IsNotFound e'"
    by (simp add: pods_fixture times_out_def nf)
  from Get_surfaces_bare_lister_error[OF ci, of ?gk, THEN conjunct2, THEN conjunct1, rule_format,
         OF g, THEN conjunct1, THEN mp, OF h3]
  obtain e w' where
    "lister_Get ?inf (lister_scope pods_key) (reads w1 + 2) (Name pods_key) = Inl e"
    "DynamicCache_Get ?gk ?dc pods_key empty_world = Some (Inl (Failed e), dc', w')"
    "annotations w' = annotations w1 @ [([Int64Attribute ''retryCount'' 3], ''get retried'')]"
    by blast
  then have "DynamicCache_Get ?gk ?dc pods_key empty_world = Some (Inl (Failed timeout), dc', w')
      \<and> annotations w' =
          annotations (Get_span pods_key empty_world)
          @ [([Int64Attribute ''retryCount'' 3], ''get retried'')]"
    by (simp add: pods_fixture times_out_def a0)
  then have A: "\<exists>dc' w'. DynamicCache_Get ?gk ?dc pods_key empty_world = Some (Inl (Failed timeout), dc', w')
      \<and> annotations w' =
          annotations (Get_span pods_key empty_world)
          @ [([Int64Attribute ''retryCount'' 3], ''get retried'')]"
    by blast
  have h1: "lister_Get ?inf (lister_scope pods_key) (reads w1 + 0) (Name pods_key) = Inl timeout
             \<and> \<not> IsNotFound timeout"
    by (simp add: pods_fixture times_out_def nf)
  from Get_surfaces_bare_lister_error[OF ci, of ?sk, THEN conjunct2, THEN conjunct2, rule_format,
         OF s h1]
  obtain w'' where
    "DynamicCache_Get ?sk ?dc pods_key empty_world = Some (Inl (Failed timeout), dc', w'')"
    "annotations w'' = annotations w1 @ [([Int64Attribute ''retryCount'' 1], ''get retried'')]"
    by blast
  then have "DynamicCache_Get ?sk ?dc pods_key empty_world = Some (Inl (Failed timeout), dc', w'')
      \<and> annotations w'' =
          annotations (Get_span pods_key empty_world)
          @ [([Int64Attribute ''retryCount'' 1], ''get retried'')]"
    by (simp add: a0)
  then have B: "\<exists>dc' w'. DynamicCache_Get ?sk ?dc pods_key empty_world = Some (Inl (Failed timeout), dc', w')
      \<and> annotations w' =
          annotations (Get_span pods_key empty_world)
          @ [([Int64Attribute ''retryCount'' 1], ''get retried'')]"
    by blast
  from resolve_pods_Get[of times_out_twice]
  obtain dc2 w2 where
    ci2: "DynamicCache_currentInformer ?dc2 pods_key (Get_span pods_key empty_world) = Some (Inr ?inf2, dc2, w2)"
    and r2: "reads w2 = 0"
    and a2: "annotations w2 = annotations (Get_span pods_key empty_world)"
    by blast
  have h2: "(\<forall>j<2. \<exists>e'. lister_Get ?inf2 (lister_scope pods_key) (reads w2 + j) (Name pods_key) = Inl e'
                          \<and> \<not> IsNotFound e')
            \<and> lister_Get ?inf2 (lister_scope pods_key) (reads w2 + 2) (Name pods_key) = Inr web_pod
            \<and> Selector pods_key = None \<and> ToUnstructured ?gk (Some web_pod) = Inr web_pod"
    by (simp add: pods_fixture times_out_twice_def r2 nf pods_key_def library_def)
  from Get_surfaces_bare_lister_error[OF ci2, of ?gk, THEN conjunct2, THEN conjunct1, rule_format,
         OF g, THEN conjunct2, THEN spec, THEN spec, THEN mp, OF h2]
  obtain w3 where
    "DynamicCache_Get ?gk ?dc2 pods_key empty_world = Some (Inr (Some web_pod), dc2, w3)"
    "annotations w3 = annotations w2 @ [([Int64Attribute ''retryCount'' 2], ''get retried'')]"
    by blast
  then have "DynamicCache_Get ?gk ?dc2 pods_key empty_world = Some (Inr (Some web_pod), dc2, w3)
      \<and> annotations w3 =
          annotations (Get_span pods_key empty_world)
          @ [([Int64Attribute ''retryCount'' 2], ''get retried'')]"
    by (simp add: a2)
  then have C: "\<exists>dc' w'. DynamicCache_Get ?gk ?dc2 pods_key empty_world = Some (Inr (Some web_pod), dc', w')
      \<and> annotations w' =
          annotations (Get_span pods_key empty_world)
          @ [([Int64Attribute ''retryCount'' 2], ''get retried'')]"
    by blast
  have D: "times_out 0 = Inl timeout \<and> times_out 1 = Inl timeout \<and> times_out 2 = Inl timeout
   \<and> times_out_twice 0 = Inl timeout \<and> times_out_twice 1 = Inl timeout
   \<and> times_out_twice 2 = Inr web_pod
   \<and> timeout = StatusError StatusReasonTimeout ''request timed out''
   \<and> \<not> IsNotFound timeout"
    by (simp add: times_out_def times_out_twice_def timeout_def)
  from Get_surfaces_bare_lister_error[OF ci, of library, THEN conjunct1, THEN mp, OF h3]
  obtain j e0 w0 where
    "lister_Get ?inf (lister_scope pods_key) (reads w1 + j) (Name pods_key) = Inl e0"
    "DynamicCache_Get library ?dc pods_key empty_world = Some (Inl (Failed e0), dc', w0)"
    by blast
  then have "DynamicCache_Get library ?dc pods_key empty_world = Some (Inl (Failed timeout), dc', w0)"
    by (simp add: pods_fixture times_out_def)
  then have E: "\<exists>dc' w'. DynamicCache_Get library ?dc pods_key empty_world
                   = Some (Inl (Failed timeout), dc', w')"
    by blast
  from A B C D E show ?thesis by (intro conjI) simp_all
qed


subsection \<open>The selector check of Get and the seen set\<close>

text \<open>
  C7: for a Get whose key carries a selector and whose fetch finds the object (at the
  first read, or after reads that reported not-found), with labels that can be read: if
  the labels do not match the selector, the Get fails with the error \<open>object found but
  filtered by selector\<close>, which is not a not-found error, although the fetch succeeded;
  if they match, the converted object is returned.
\<close>

theorem Get_checks_selector:
  assumes "DynamicCache_currentInformer dc key (Get_span key w) = Some (Inr informer, dc', w1)"
      and "Selector key = Some sel"
      and "i < 3"
      and "\<forall>j<i. \<exists>e. lister_Get informer (lister_scope key) (reads w1 + j) (Name key) = Inl e
                      \<and> IsNotFound e"
      and "lister_Get informer (lister_scope key) (reads w1 + i) (Name key) = Inr obj"
      and "accessor_Labels K (Some obj) = Inr m"
  shows "(\<not> selector_Matches K (AsSelector sel) m \<longrightarrow>
            (\<exists>w'. DynamicCache_Get K dc key w =
                    Some (Inl (Failed (ErrorsNew ''object found but filtered by selector'')), dc', w'))
            \<and> \<not> IsNotFound (ErrorsNew ''object found but filtered by selector''))
       \<and> (selector_Matches K (AsSelector sel) m \<longrightarrow>
            (\<forall>u. ToUnstructured K (Some obj) = Inr u \<longrightarrow>
                 (\<exists>w'. DynamicCache_Get K dc key w = Some (Inr (Some u), dc', w'))))"
  by (simp add: Get_resolved[OF assms(1)] Get_from_found[OF assms(3,4,5)] verify_selector_def
        assms(2,6) to_unstructured_def)

text \<open>
  C7, witness: the pod \<open>web\<close> carries the label app=web and is in the cache. A Get
  with selector app=db is filtered out; a Get with selector app=web returns the pod.
\<close>

theorem Get_checks_selector_witness:
  "(\<exists>dc' w'. DynamicCache_Get library (cache allow_all (pods_informer always present) never)
                (pods_key\<lparr>Selector := Some [(''app'', ''db'')]\<rparr>) empty_world
              = Some (Inl (Failed (ErrorsNew ''object found but filtered by selector'')), dc', w'))
   \<and> (\<exists>dc' w'. DynamicCache_Get library (cache allow_all (pods_informer always present) never)
                (pods_key\<lparr>Selector := Some [(''app'', ''web'')]\<rparr>) empty_world
              = Some (Inr (Some web_pod), dc', w'))
   \<and> present 0 = Inr web_pod"
proof -
  let ?inf = "pods_informer always present"
  let ?dc = "cache allow_all ?inf never"
  let ?db = "pods_key\<lparr>Selector := Some [(''app'', ''db'')]\<rparr>"
  let ?web = "pods_key\<lparr>Selector := Some [(''app'', ''web'')]\<rparr>"
  have lab: "accessor_Labels library (Some web_pod) = Inr [(''app'', ''web'')]"
    by (simp add: library_def web_pod_def)
  have conv: "ToUnstructured library (Some web_pod) = Inr web_pod"
    by (simp add: library_def)
  have no: "\<not> selector_Matches library (AsSelector [(''app'', ''db'')]) [(''app'', ''web'')]"
    by (simp add: library_def)
  have yes: "selector_Matches library (AsSelector [(''app'', ''web'')]) [(''app'', ''web'')]"
    by (simp add: library_def)
  from resolve_on_pods[of present never ?db "Get_span ?db empty_world"]
  obtain dc1 w1 where
    c1: "DynamicCache_currentInformer ?dc ?db (Get_span ?db empty_world) = Some (Inr ?inf, dc1, w1)"
    by blast
  have s1: "Selector ?db = Some [(''app'', ''db'')]" by simp
  have f1: "lister_Get ?inf (lister_scope ?db) (reads w1 + 0) (Name ?db) = Inr web_pod"
    by (simp add: pods_fixture present_def)
  from Get_checks_selector[OF c1 s1 _ _ f1 lab, THEN conjunct1, rule_format, OF _ _ no]
  have A: "\<exists>dc' w'. DynamicCache_Get library ?dc ?db empty_world
              = Some (Inl (Failed (ErrorsNew ''object found but filtered by selector'')), dc', w')"
    by auto
  from resolve_on_pods[of present never ?web "Get_span ?web empty_world"]
  obtain dc2 w2 where
    c2: "DynamicCache_currentInformer ?dc ?web (Get_span ?web empty_world) = Some (Inr ?inf, dc2, w2)"
    by blast
  have s2: "Selector ?web = Some [(''app'', ''web'')]" by simp
  have f2: "lister_Get ?inf (lister_scope ?web) (reads w2 + 0) (Name ?web) = Inr web_pod"
    by (simp add: pods_fixture present_def)
  from Get_checks_selector[OF c2 s2 _ _ f2 lab, THEN conjunct2, rule_format, OF _ _ yes conv]
  have B: "\<exists>dc' w'. DynamicCache_Get library ?dc ?web empty_world = Some (Inr (Some web_pod), dc', w')"
    by auto
  from A B show ?thesis by (simp add: present_def)
qed

text \<open>
  C8: a type marked seen stays marked through any run of List, Get and Watch calls, and
  after the run every List, Get or Watch whose key has that group, version and kind
  returns without entering the sync wait and leaves the cache as it is. Namespace, name
  and selector of a key play no part in its group, version and kind.
\<close>

theorem seen_is_permanent_and_keyed_by_gvk:
  assumes "seenGVKs dc gvk = Some b"
      and "run K reqs dc w = Some (dc', w')"
      and "Key_GroupVersionKind key = gvk"
  shows "seenGVKs dc' gvk = Some b
       \<and> (\<exists>r w''. DynamicCache_List K dc' key w' = Some (r, dc', w'') \<and> waits w'' = waits w')
       \<and> (\<exists>r w''. DynamicCache_Get K dc' key w' = Some (r, dc', w'') \<and> waits w'' = waits w')
       \<and> (\<exists>r w''. DynamicCache_Watch dc' key h w' = Some (r, dc', w'') \<and> waits w'' = waits w')
       \<and> Key_GroupVersionKind (key\<lparr>Namespace := ns, Name := n, Selector := sel\<rparr>) = gvk"
proof -
  from run_mono[OF assms(2,1)] have s: "seenGVKs dc' (Key_GroupVersionKind key) = Some b"
    by (simp add: assms(3))
  from List_seen[OF s, of K w'] Get_seen[OF s, of K w'] Watch_seen[OF s, of h w'] s assms(3)
  show ?thesis
    by (simp add: Key_GroupVersionKind_query)
qed


text \<open>
  C8, witness: the type v1 Pod is marked seen and its informer would never sync. After
  a Watch and a List for pods of namespace default, a Get for another namespace, name
  and selector of the same type returns, the type is still marked, and no wait was
  entered.
\<close>

theorem seen_is_permanent_and_keyed_by_gvk_witness:
  "\<exists>dc' w' r w''.
     run library [CallWatch pods_key 5, CallList pods_key]
       ((cache allow_all (pods_informer never present) never)
          \<lparr>seenGVKs := [GroupVersionKind [] ''v1'' ''Pod'' \<mapsto> True]\<rparr>) empty_world = Some (dc', w')
     \<and> seenGVKs dc' (GroupVersionKind [] ''v1'' ''Pod'') = Some True
     \<and> DynamicCache_Get library dc'
           \<lparr>Namespace = ''kube-system'', APIVersion = ''v1'', Kind = ''Pod'', Name = ''dns'',
            Selector = Some [(''k8s-app'', ''dns'')]\<rparr> w' = Some (r, dc', w'')
     \<and> waits w'' = []"
proof -
  let ?gvk = "GroupVersionKind [] ''v1'' ''Pod''"
  let ?dc = "(cache allow_all (pods_informer never present) never)\<lparr>seenGVKs := [?gvk \<mapsto> True]\<rparr>"
  let ?key = "\<lparr>Namespace = ''kube-system'', APIVersion = ''v1'', Kind = ''Pod'', Name = ''dns'',
            Selector = Some [(''k8s-app'', ''dns'')]\<rparr>"
  have g: "Key_GroupVersionKind pods_key = ?gvk"
    by (simp add: Key_GroupVersionKind_def ParseGroupVersion_def pods_key_def)
  have g': "Key_GroupVersionKind ?key = ?gvk"
    by (simp add: Key_GroupVersionKind_def ParseGroupVersion_def)
  have s0: "seenGVKs ?dc ?gvk = Some True" by simp
  then have s0': "seenGVKs ?dc (Key_GroupVersionKind pods_key) = Some True" by (simp only: g)
  from Watch_seen[OF s0', of 5 empty_world] obtain r1 w1 where
    W: "DynamicCache_Watch ?dc pods_key 5 empty_world = Some (r1, ?dc, w1)"
    and wt1: "waits w1 = waits empty_world" by blast
  from List_seen[OF s0', of library w1] obtain r2 w2 where
    L: "DynamicCache_List library ?dc pods_key w1 = Some (r2, ?dc, w2)"
    and wt2: "waits w2 = waits w1" by blast
  have R: "run library [CallWatch pods_key 5, CallList pods_key] ?dc empty_world = Some (?dc, w2)"
    by (simp add: perform_def W L)
  from seen_is_permanent_and_keyed_by_gvk[OF s0 R g', of 0]
  obtain r w'' where
    "seenGVKs ?dc ?gvk = Some True"
    "DynamicCache_Get library ?dc ?key w2 = Some (r, ?dc, w'')" "waits w'' = waits w2"
    by blast
  with wt1 wt2 have
    "run library [CallWatch pods_key 5, CallList pods_key] ?dc empty_world = Some (?dc, w2)
     \<and> seenGVKs ?dc ?gvk = Some True
     \<and> DynamicCache_Get library ?dc ?key w2 = Some (r, ?dc, w'')
     \<and> waits w'' = []"
    using R by (simp add: empty_world_def)
  then show ?thesis by blast
qed

end
